theory Spec2Isabelle
  imports Complex_Main "HOL-Library.Word"
begin

section \<open>Values of the JavaScript runtime\<close>

text \<open>
  A JavaScript string is a sequence of UTF-16 code units; a byte array
  (\<^verbatim>\<open>Uint8Array\<close>, \<^verbatim>\<open>Buffer\<close>) is a sequence of octets.
  String literals of the source are seven-bit ASCII and are written with \<open>str\<close>.
\<close>

type_synonym jsstring = "16 word list"
type_synonym bytes = "8 word list"

definition str :: "string \<Rightarrow> jsstring" where
  "str s = map (\<lambda>c. of_nat (of_char c)) s"

text \<open>
  A number is a double. A finite double is kept as the rational it stands for,
  the negative zero apart; \<^verbatim>\<open>JSON.parse\<close> returns no \<^verbatim>\<open>NaN\<close>.
\<close>

datatype number = Finite rat | NegativeZero | PositiveInfinity | NegativeInfinity

text \<open>
  The values \<^verbatim>\<open>JSON.parse\<close> can return. An object keeps its members in source
  order, and a later member overrides an earlier one of the same name.
  \<^verbatim>\<open>undefined\<close> is \<open>None\<close> of \<open>json option\<close>.
\<close>

datatype json =
    JNull
  | JBool bool
  | JNumber number
  | JString jsstring
  | JArray "json list"
  | JObject "(jsstring \<times> json) list"

text \<open>
  Whether the conversion to a string that a template literal performs completes
  on a parsed value. It throws a \<^verbatim>\<open>TypeError\<close> on an object with a member
  \<^verbatim>\<open>toString\<close> of its own: no parsed value is callable, and \<^verbatim>\<open>valueOf\<close>, own or
  inherited, does not give a primitive value. \<^verbatim>\<open>Array.prototype.toString\<close> joins
  the conversions of the elements.
\<close>

fun ToString_completes :: "json \<Rightarrow> bool" where
  "ToString_completes (JArray vs) = (\<forall>v \<in> set vs. ToString_completes v)"
| "ToString_completes (JObject ms) = (map_of ms (str ''toString'') = None)"
| "ToString_completes v = True"

section \<open>Errors (errors.ts)\<close>

text \<open>
  The five error classes of the service, the plain \<^verbatim>\<open>Error\<close> the providers throw,
  and the exceptions of the runtime and of the jose library that the service can
  catch. \<open>EncryptionError\<close> and \<open>DecryptionError\<close> carry message, algorithm and
  cause, as their constructors do.
\<close>

datatype error =
    Error jsstring
  | TypeError
  | SyntaxError
  | InvalidCharacterError
  | JOSEError jsstring
  | EncryptionError jsstring "jsstring option" "error option"
  | DecryptionError jsstring "jsstring option" "error option"
  | UnsupportedAlgorithmError "json option" "jsstring list"
  | NoAlgorithmSpecifiedError "jsstring list"
  | NoProvidersError

text \<open>
  What \<^verbatim>\<open>throw new UnsupportedAlgorithmError(requestedAlgorithm, availableAlgorithms)\<close>
  throws. The constructor builds its message with a template literal over
  \<open>requestedAlgorithm\<close>, which at run time is any parsed value or \<^verbatim>\<open>undefined\<close>:
  when that conversion throws, the \<^verbatim>\<open>TypeError\<close> is what leaves the expression.
\<close>

definition throw_UnsupportedAlgorithmError :: "json option \<Rightarrow> jsstring list \<Rightarrow> error" where
  "throw_UnsupportedAlgorithmError requestedAlgorithm availableAlgorithms =
     (case requestedAlgorithm of
        None \<Rightarrow> UnsupportedAlgorithmError None availableAlgorithms
      | Some v \<Rightarrow>
          if ToString_completes v
          then UnsupportedAlgorithmError (Some v) availableAlgorithms
          else TypeError)"

section \<open>Runtime functions used by the service\<close>

subsection \<open>btoa and atob\<close>

text \<open>
  \<^verbatim>\<open>btoa\<close> throws on a code unit above \<open>0xFF\<close> and encodes the others as base64
  with padding. \<^verbatim>\<open>atob\<close> is the forgiving base64 decoder: ASCII whitespace is
  removed, one or two trailing \<open>=\<close> are removed when the length is a multiple
  of four, a remaining length of 1 modulo 4 and any character outside the
  alphabet are errors, and the left-over bits of the last group are dropped.
\<close>

definition b64_char :: "nat \<Rightarrow> 16 word" where
  "b64_char n = of_nat (if n < 26 then n + 65 else if n < 52 then n + 71
                         else if n < 62 then n - 4 else if n = 62 then 43 else 47)"

definition b64_index :: "16 word \<Rightarrow> nat option" where
  "b64_index c = (let u = unat c in
     if 65 \<le> u \<and> u \<le> 90 then Some (u - 65)
     else if 97 \<le> u \<and> u \<le> 122 then Some (u - 71)
     else if 48 \<le> u \<and> u \<le> 57 then Some (u + 4)
     else if u = 43 then Some 62
     else if u = 47 then Some 63
     else None)"

fun b64_encode :: "nat list \<Rightarrow> jsstring" where
  "b64_encode [] = []"
| "b64_encode [x] = [b64_char (x div 4), b64_char ((x mod 4) * 16), 0x3D, 0x3D]"
| "b64_encode [x, y] =
     [b64_char (x div 4), b64_char ((x mod 4) * 16 + y div 16), b64_char ((y mod 16) * 4), 0x3D]"
| "b64_encode (x # y # z # r) =
     b64_char (x div 4) # b64_char ((x mod 4) * 16 + y div 16)
       # b64_char ((y mod 16) * 4 + z div 64) # b64_char (z mod 64) # b64_encode r"

definition btoa :: "jsstring \<Rightarrow> error + jsstring" where
  "btoa s = (if list_all (\<lambda>c. c \<le> 0xFF) s then Inr (b64_encode (map unat s))
             else Inl InvalidCharacterError)"

definition is_ascii_whitespace :: "16 word \<Rightarrow> bool" where
  "is_ascii_whitespace c = (c = 0x09 \<or> c = 0x0A \<or> c = 0x0C \<or> c = 0x0D \<or> c = 0x20)"

fun strip_padding_rev :: "jsstring \<Rightarrow> jsstring" where
  "strip_padding_rev (a # b # r) =
     (if a = 0x3D then (if b = 0x3D then r else b # r) else a # b # r)"
| "strip_padding_rev [a] = (if a = 0x3D then [] else [a])"
| "strip_padding_rev [] = []"

fun b64_decode :: "nat list \<Rightarrow> nat list" where
  "b64_decode (a # b # c # d # r) =
     (a * 4 + b div 16) # ((b mod 16) * 16 + c div 4) # ((c mod 4) * 64 + d) # b64_decode r"
| "b64_decode [a, b, c] = [a * 4 + b div 16, (b mod 16) * 16 + c div 4]"
| "b64_decode [a, b] = [a * 4 + b div 16]"
| "b64_decode [a] = []"
| "b64_decode [] = []"

definition atob :: "jsstring \<Rightarrow> error + jsstring" where
  "atob s =
     (let d0 = filter (\<lambda>c. \<not> is_ascii_whitespace c) s;
          d1 = (if length d0 mod 4 = 0 then rev (strip_padding_rev (rev d0)) else d0)
      in if length d1 mod 4 = 1 then Inl InvalidCharacterError
         else if \<not> list_all (\<lambda>c. b64_index c \<noteq> None) d1 then Inl InvalidCharacterError
         else Inr (map of_nat (b64_decode (List.map_filter b64_index d1))))"

subsection \<open>TextEncoder and TextDecoder\<close>

text \<open>
  \<^verbatim>\<open>new TextEncoder().encode\<close> converts the string to scalar values, an unpaired
  surrogate becoming U+FFFD, and writes them in UTF-8.
\<close>

definition is_high_surrogate :: "16 word \<Rightarrow> bool" where
  "is_high_surrogate c = (0xD800 \<le> c \<and> c \<le> 0xDBFF)"

definition is_low_surrogate :: "16 word \<Rightarrow> bool" where
  "is_low_surrogate c = (0xDC00 \<le> c \<and> c \<le> 0xDFFF)"

definition is_surrogate :: "16 word \<Rightarrow> bool" where
  "is_surrogate c = (0xD800 \<le> c \<and> c \<le> 0xDFFF)"

fun scalar_values :: "jsstring \<Rightarrow> nat list" where
  "scalar_values [] = []"
| "scalar_values [c] = [if is_surrogate c then 0xFFFD else unat c]"
| "scalar_values (c # d # r) =
     (if is_high_surrogate c \<and> is_low_surrogate d
      then (0x10000 + (unat c - 0xD800) * 0x400 + (unat d - 0xDC00)) # scalar_values r
      else (if is_surrogate c then 0xFFFD else unat c) # scalar_values (d # r))"

definition utf8_encode_scalar :: "nat \<Rightarrow> nat list" where
  "utf8_encode_scalar cp =
     (if cp < 0x80 then [cp]
      else if cp < 0x800 then [0xC0 + cp div 64, 0x80 + cp mod 64]
      else if cp < 0x10000 then [0xE0 + cp div 4096, 0x80 + (cp div 64) mod 64, 0x80 + cp mod 64]
      else [0xF0 + cp div 262144, 0x80 + (cp div 4096) mod 64, 0x80 + (cp div 64) mod 64,
            0x80 + cp mod 64])"

definition TextEncoder_encode :: "jsstring \<Rightarrow> bytes" where
  "TextEncoder_encode s = map of_nat (concat (map utf8_encode_scalar (scalar_values s)))"

text \<open>
  \<^verbatim>\<open>new TextDecoder().decode\<close> runs the UTF-8 decoder of the Encoding standard
  (state: code point, bytes seen, bytes needed, lower and upper boundary; a
  malformed sequence yields U+FFFD and the offending byte is read again),
  drops one leading U+FEFF (the byte order mark, \<^verbatim>\<open>ignoreBOM\<close> being false by
  default) and writes the scalar values as UTF-16.
\<close>

fun utf8_decoder :: "nat \<Rightarrow> nat \<Rightarrow> nat \<Rightarrow> nat \<Rightarrow> nat \<Rightarrow> nat list \<Rightarrow> nat list" where
  "utf8_decoder cp seen needed lower upper [] = (if needed \<noteq> 0 then [0xFFFD] else [])"
| "utf8_decoder cp seen needed lower upper (b # bs) =
     (if needed = 0 then
        (if b \<le> 0x7F then b # utf8_decoder 0 0 0 0x80 0xBF bs
         else if 0xC2 \<le> b \<and> b \<le> 0xDF then utf8_decoder (b mod 32) 0 1 0x80 0xBF bs
         else if 0xE0 \<le> b \<and> b \<le> 0xEF then
           utf8_decoder (b mod 16) 0 2 (if b = 0xE0 then 0xA0 else 0x80)
             (if b = 0xED then 0x9F else 0xBF) bs
         else if 0xF0 \<le> b \<and> b \<le> 0xF4 then
           utf8_decoder (b mod 8) 0 3 (if b = 0xF0 then 0x90 else 0x80)
             (if b = 0xF4 then 0x8F else 0xBF) bs
         else 0xFFFD # utf8_decoder 0 0 0 0x80 0xBF bs)
      else if b < lower \<or> upper < b then 0xFFFD # utf8_decoder 0 0 0 0x80 0xBF (b # bs)
      else if seen + 1 \<noteq> needed then
        utf8_decoder (cp * 64 + b mod 64) (seen + 1) needed 0x80 0xBF bs
      else (cp * 64 + b mod 64) # utf8_decoder 0 0 0 0x80 0xBF bs)"

fun strip_bom :: "nat list \<Rightarrow> nat list" where
  "strip_bom [] = []"
| "strip_bom (c # r) = (if c = 0xFEFF then r else c # r)"

definition utf16_encode_scalar :: "nat \<Rightarrow> jsstring" where
  "utf16_encode_scalar cp =
     (if cp < 0x10000 then [of_nat cp]
      else [of_nat (0xD800 + (cp - 0x10000) div 0x400), of_nat (0xDC00 + (cp - 0x10000) mod 0x400)])"

definition TextDecoder_decode :: "bytes \<Rightarrow> jsstring" where
  "TextDecoder_decode bs =
     concat (map utf16_encode_scalar (strip_bom (utf8_decoder 0 0 0 0x80 0xBF (map unat bs))))"

subsection \<open>JSON.stringify and JSON.parse\<close>

text \<open>
  \<^verbatim>\<open>JSON.stringify\<close> quotes a string: the two-character escapes, \<open>\uXXXX\<close> in
  lower-case hexadecimal for the other control characters and for unpaired
  surrogates, every other code unit as it is. The service only ever serialises
  the object literal \<^verbatim>\<open>{ algorithm, version: 1, data }\<close>.
\<close>

definition hex_digit :: "nat \<Rightarrow> 16 word" where
  "hex_digit n = of_nat (if n < 10 then n + 48 else n + 87)"

definition unicode_escape :: "16 word \<Rightarrow> jsstring" where
  "unicode_escape c =
     [0x5C, 0x75, hex_digit (unat c div 4096), hex_digit (unat c div 256 mod 16),
      hex_digit (unat c div 16 mod 16), hex_digit (unat c mod 16)]"

fun quote_chars :: "jsstring \<Rightarrow> jsstring" where
  "quote_chars [] = []"
| "quote_chars (c # r) =
     (if c = 0x08 then [0x5C, 0x62] @ quote_chars r
      else if c = 0x09 then [0x5C, 0x74] @ quote_chars r
      else if c = 0x0A then [0x5C, 0x6E] @ quote_chars r
      else if c = 0x0C then [0x5C, 0x66] @ quote_chars r
      else if c = 0x0D then [0x5C, 0x72] @ quote_chars r
      else if c = 0x22 then [0x5C, 0x22] @ quote_chars r
      else if c = 0x5C then [0x5C, 0x5C] @ quote_chars r
      else if c < 0x20 then unicode_escape c @ quote_chars r
      else if is_high_surrogate c then
        (case r of
           [] \<Rightarrow> unicode_escape c
         | d # r' \<Rightarrow> if is_low_surrogate d then c # d # quote_chars r'
                     else unicode_escape c @ quote_chars (d # r'))
      else if is_low_surrogate c then unicode_escape c @ quote_chars r
      else c # quote_chars r)"

definition QuoteJSONString :: "jsstring \<Rightarrow> jsstring" where
  "QuoteJSONString s = [0x22] @ quote_chars s @ [0x22]"

definition JSON_stringify_metadata :: "jsstring \<Rightarrow> jsstring \<Rightarrow> jsstring" where
  "JSON_stringify_metadata algorithm data =
     [0x7B] @ QuoteJSONString (str ''algorithm'') @ [0x3A] @ QuoteJSONString algorithm
       @ [0x2C] @ QuoteJSONString (str ''version'') @ [0x3A] @ str ''1''
       @ [0x2C] @ QuoteJSONString (str ''data'') @ [0x3A] @ QuoteJSONString data @ [0x7D]"

text \<open>
  \<^verbatim>\<open>JSON.parse\<close>, by recursive descent over the JSON grammar. The recursion is
  bounded by a counter that starts above twice the length of the text: every
  second call at the latest consumes a character.
\<close>

definition is_json_ws :: "16 word \<Rightarrow> bool" where
  "is_json_ws c = (c = 0x09 \<or> c = 0x0A \<or> c = 0x0D \<or> c = 0x20)"

definition skip_ws :: "jsstring \<Rightarrow> jsstring" where
  "skip_ws = dropWhile is_json_ws"

definition hex_value :: "16 word \<Rightarrow> nat option" where
  "hex_value c = (let u = unat c in
     if 48 \<le> u \<and> u \<le> 57 then Some (u - 48)
     else if 65 \<le> u \<and> u \<le> 70 then Some (u - 55)
     else if 97 \<le> u \<and> u \<le> 102 then Some (u - 87)
     else None)"

definition simple_escape :: "16 word \<Rightarrow> 16 word option" where
  "simple_escape e =
     (if e = 0x22 then Some 0x22 else if e = 0x5C then Some 0x5C
      else if e = 0x2F then Some 0x2F else if e = 0x62 then Some 0x08
      else if e = 0x66 then Some 0x0C else if e = 0x6E then Some 0x0A
      else if e = 0x72 then Some 0x0D else if e = 0x74 then Some 0x09
      else None)"

fun parse_string_chars :: "jsstring \<Rightarrow> (jsstring \<times> jsstring) option" where
  "parse_string_chars [] = None"
| "parse_string_chars (c # cs) =
     (if c = 0x22 then Some ([], cs)
      else if c = 0x5C then
        (case cs of
           [] \<Rightarrow> None
         | e # es \<Rightarrow>
             if e = 0x75 then
               (case es of
                  h1 # h2 # h3 # h4 # r \<Rightarrow>
                    (case (hex_value h1, hex_value h2, hex_value h3, hex_value h4) of
                       (Some a, Some b, Some c', Some d) \<Rightarrow>
                         (case parse_string_chars r of
                            None \<Rightarrow> None
                          | Some (s, r') \<Rightarrow> Some (of_nat (((a * 16 + b) * 16 + c') * 16 + d) # s, r'))
                     | _ \<Rightarrow> None)
                | _ \<Rightarrow> None)
             else
               (case simple_escape e of
                  None \<Rightarrow> None
                | Some v \<Rightarrow>
                    (case parse_string_chars es of
                       None \<Rightarrow> None
                     | Some (s, r') \<Rightarrow> Some (v # s, r'))))
      else if c < 0x20 then None
      else (case parse_string_chars cs of
              None \<Rightarrow> None
            | Some (s, r') \<Rightarrow> Some (c # s, r')))"

definition is_digit :: "16 word \<Rightarrow> bool" where
  "is_digit c = (0x30 \<le> c \<and> c \<le> 0x39)"

definition digits_value :: "jsstring \<Rightarrow> nat" where
  "digits_value ds = foldl (\<lambda>n c. n * 10 + (unat c - 48)) 0 ds"

fun next_is :: "jsstring \<Rightarrow> 16 word \<Rightarrow> bool" where
  "next_is [] x = False"
| "next_is (c # r) x = (c = x)"

text \<open>
  The Number value of a literal of magnitude \<open>m\<close>: the double nearest to it, a
  tie going to the even significand. \<open>binary_exponent m\<close> is the integer part
  of the binary logarithm of \<open>m\<close>; below \<open>2\<^sup>-\<^sup>1\<^sup>0\<^sup>2\<^sup>2\<close> the doubles are
  \<open>2\<^sup>-\<^sup>1\<^sup>0\<^sup>7\<^sup>4\<close> apart, and what rounds to \<open>2\<^sup>1\<^sup>0\<^sup>2\<^sup>4\<close> or more is an infinity.
\<close>

function bit_length :: "int \<Rightarrow> nat" where
  "bit_length n = (if n \<le> 0 then 0 else Suc (bit_length (n div 2)))"
  by pat_completeness auto

termination bit_length
  by (relation "measure nat") auto

declare bit_length.simps [simp del]

definition power2 :: "int \<Rightarrow> rat" where
  "power2 e = (if 0 \<le> e then 2 ^ nat e else 1 / 2 ^ nat (- e))"

definition binary_exponent :: "rat \<Rightarrow> int" where
  "binary_exponent m =
     (let d = int (bit_length (fst (quotient_of m)))
                - int (bit_length (snd (quotient_of m)))
      in if power2 d \<le> m then d else d - 1)"

definition round_half_even :: "rat \<Rightarrow> int" where
  "round_half_even q =
     (let f = \<lfloor>q\<rfloor>
      in if q - of_int f < 1 / 2 then f
         else if 1 / 2 < q - of_int f then f + 1
         else if even f then f else f + 1)"

definition Number_value :: "bool \<Rightarrow> rat \<Rightarrow> number" where
  "Number_value negative m =
     (let e = max (binary_exponent m) (- 1022);
          ulp = power2 (e - 52);
          r = of_int (round_half_even (m / ulp)) * ulp
      in if m = 0 \<or> r = 0 then (if negative then NegativeZero else Finite 0)
         else if power2 1024 \<le> r then (if negative then NegativeInfinity else PositiveInfinity)
         else Finite (if negative then - r else r))"

definition parse_number :: "jsstring \<Rightarrow> (number \<times> jsstring) option" where
  "parse_number cs =
     (let neg = next_is cs 0x2D;
          r0 = (if neg then drop 1 cs else cs);
          ip = takeWhile is_digit r0;
          r1 = dropWhile is_digit r0;
          has_frac = next_is r1 0x2E;
          fp = (if has_frac then takeWhile is_digit (drop 1 r1) else []);
          r2 = (if has_frac then dropWhile is_digit (drop 1 r1) else r1);
          has_exp = (next_is r2 0x65 \<or> next_is r2 0x45);
          r3 = (if has_exp then drop 1 r2 else r2);
          eneg = next_is r3 0x2D;
          r4 = (if next_is r3 0x2D \<or> next_is r3 0x2B then drop 1 r3 else r3);
          ep = (if has_exp then takeWhile is_digit r4 else []);
          r5 = (if has_exp then dropWhile is_digit r4 else r2);
          mantissa = (of_nat (digits_value ip) :: rat)
                       + of_nat (digits_value fp) / 10 ^ length fp;
          scaled = (if eneg then mantissa / 10 ^ digits_value ep
                    else mantissa * 10 ^ digits_value ep)
      in if ip = [] \<or> (1 < length ip \<and> next_is ip 0x30) \<or> (has_frac \<and> fp = [])
            \<or> (has_exp \<and> ep = [])
         then None
         else Some (Number_value neg scaled, r5))"

fun parse_value :: "nat \<Rightarrow> jsstring \<Rightarrow> (json \<times> jsstring) option"
  and parse_elements :: "nat \<Rightarrow> json list \<Rightarrow> jsstring \<Rightarrow> (json list \<times> jsstring) option"
  and parse_members ::
    "nat \<Rightarrow> (jsstring \<times> json) list \<Rightarrow> jsstring \<Rightarrow> ((jsstring \<times> json) list \<times> jsstring) option"
where
  "parse_value 0 cs = None"
| "parse_value (Suc n) cs =
     (case skip_ws cs of
        [] \<Rightarrow> None
      | c # r \<Rightarrow>
          if c = 0x7B then
            (case skip_ws r of
               [] \<Rightarrow> None
             | c' # r' \<Rightarrow>
                 if c' = 0x7D then Some (JObject [], r')
                 else (case parse_members n [] (c' # r') of
                         None \<Rightarrow> None
                       | Some (ms, r'') \<Rightarrow> Some (JObject ms, r'')))
          else if c = 0x5B then
            (case skip_ws r of
               [] \<Rightarrow> None
             | c' # r' \<Rightarrow>
                 if c' = 0x5D then Some (JArray [], r')
                 else (case parse_elements n [] (c' # r') of
                         None \<Rightarrow> None
                       | Some (vs, r'') \<Rightarrow> Some (JArray vs, r'')))
          else if c = 0x22 then
            (case parse_string_chars r of
               None \<Rightarrow> None
             | Some (s, r') \<Rightarrow> Some (JString s, r'))
          else if take 4 (c # r) = str ''true'' then Some (JBool True, drop 4 (c # r))
          else if take 5 (c # r) = str ''false'' then Some (JBool False, drop 5 (c # r))
          else if take 4 (c # r) = str ''null'' then Some (JNull, drop 4 (c # r))
          else if c = 0x2D \<or> is_digit c then
            (case parse_number (c # r) of
               None \<Rightarrow> None
             | Some (q, r') \<Rightarrow> Some (JNumber q, r'))
          else None)"
| "parse_elements 0 acc cs = None"
| "parse_elements (Suc n) acc cs =
     (case parse_value n cs of
        None \<Rightarrow> None
      | Some (v, r) \<Rightarrow>
          (case skip_ws r of
             [] \<Rightarrow> None
           | c # r' \<Rightarrow>
               if c = 0x2C then parse_elements n (acc @ [v]) r'
               else if c = 0x5D then Some (acc @ [v], r')
               else None))"
| "parse_members 0 acc cs = None"
| "parse_members (Suc n) acc cs =
     (case skip_ws cs of
        [] \<Rightarrow> None
      | c # r \<Rightarrow>
          if c \<noteq> 0x22 then None
          else
            (case parse_string_chars r of
               None \<Rightarrow> None
             | Some (k, r1) \<Rightarrow>
                 (case skip_ws r1 of
                    [] \<Rightarrow> None
                  | c1 # r2 \<Rightarrow>
                      if c1 \<noteq> 0x3A then None
                      else
                        (case parse_value n r2 of
                           None \<Rightarrow> None
                         | Some (v, r3) \<Rightarrow>
                             (case skip_ws r3 of
                                [] \<Rightarrow> None
                              | c3 # r4 \<Rightarrow>
                                  if c3 = 0x2C then parse_members n (acc @ [(k, v)]) r4
                                  else if c3 = 0x7D then Some (acc @ [(k, v)], r4)
                                  else None)))))"

definition JSON_parse :: "jsstring \<Rightarrow> error + json" where
  "JSON_parse text =
     (case parse_value (2 * length text + 2) text of
        None \<Rightarrow> Inl SyntaxError
      | Some (v, r) \<Rightarrow> if skip_ws r = [] then Inr v else Inl SyntaxError)"

text \<open>
  Reading the property \<open>k\<close> of a parsed value, for a name that is neither an
  array index nor a property of a prototype (\<^verbatim>\<open>algorithm\<close> and \<^verbatim>\<open>data\<close> are
  neither): \<^verbatim>\<open>null\<close> throws, an object gives its last member of that name, every
  other value gives \<^verbatim>\<open>undefined\<close>.
\<close>

fun get_property :: "json \<Rightarrow> jsstring \<Rightarrow> error + json option" where
  "get_property JNull k = Inl TypeError"
| "get_property (JObject ms) k = Inr (map_of (rev ms) k)"
| "get_property (JBool b) k = Inr None"
| "get_property (JNumber q) k = Inr None"
| "get_property (JString s) k = Inr None"
| "get_property (JArray vs) k = Inr None"

text \<open>Truthiness (\<^verbatim>\<open>!x\<close> is its negation).\<close>

fun truthy :: "json \<Rightarrow> bool" where
  "truthy JNull = False"
| "truthy (JBool b) = b"
| "truthy (JNumber x) = (x \<noteq> Finite 0 \<and> x \<noteq> NegativeZero)"
| "truthy (JString s) = (s \<noteq> [])"
| "truthy (JArray vs) = True"
| "truthy (JObject ms) = True"

subsection \<open>Map\<close>

text \<open>
  A JavaScript \<^verbatim>\<open>Map\<close> keeps its entries in insertion order; \<^verbatim>\<open>set\<close> on a key
  that is present replaces the value in place. \<^verbatim>\<open>new Map(entries)\<close> inserts the
  entries one after the other.
\<close>

definition Map_get :: "('k \<times> 'v) list \<Rightarrow> 'k \<Rightarrow> 'v option" where
  "Map_get m k = map_of m k"

definition Map_has :: "('k \<times> 'v) list \<Rightarrow> 'k \<Rightarrow> bool" where
  "Map_has m k = (map_of m k \<noteq> None)"

definition Map_keys :: "('k \<times> 'v) list \<Rightarrow> 'k list" where
  "Map_keys m = map fst m"

definition Map_size :: "('k \<times> 'v) list \<Rightarrow> nat" where
  "Map_size m = length m"

fun Map_set :: "('k \<times> 'v) list \<Rightarrow> 'k \<Rightarrow> 'v \<Rightarrow> ('k \<times> 'v) list" where
  "Map_set [] k v = [(k, v)]"
| "Map_set ((k', v') # m) k v = (if k' = k then (k, v) # m else (k', v') # Map_set m k v)"

definition Map_delete :: "('k \<times> 'v) list \<Rightarrow> 'k \<Rightarrow> ('k \<times> 'v) list" where
  "Map_delete m k = filter (\<lambda>(k', v). k' \<noteq> k) m"

definition Map_new :: "('k \<times> 'v) list \<Rightarrow> ('k \<times> 'v) list" where
  "Map_new entries = foldl (\<lambda>m (k, v). Map_set m k v) [] entries"

subsection \<open>The jose library and Buffer\<close>

text \<open>
  The cryptographic primitives are not code of the repository. The model takes
  them as a parameter:
  \<^item> \<open>Buffer_from_base64\<close> is \<^verbatim>\<open>Buffer.from(s, 'base64')\<close>;
  \<^item> \<open>CompactEncrypt\<close> is \<^verbatim>\<open>new CompactEncrypt(text).setProtectedHeader(h).encrypt(key)\<close>,
    with the randomness it draws (the initialisation vector) as an argument;
  \<^item> \<open>compactDecrypt\<close> is \<^verbatim>\<open>compactDecrypt(jwe, key)\<close>, giving the plaintext
    and the protected header or the error it throws. Its first argument is what
    the service hands over, any parsed JSON value.
  A key handle made by \<^verbatim>\<open>crypto.subtle.importKey('raw', rawKey, ...)\<close> is the raw key.
  Of the protected header the provider writes \<^verbatim>\<open>alg\<close>, \<^verbatim>\<open>enc\<close> and \<^verbatim>\<open>kid\<close> and
  reads \<^verbatim>\<open>kid\<close>, which it compares with a string by \<^verbatim>\<open>!==\<close>: a \<^verbatim>\<open>kid\<close> that is
  not a string differs from every string, as an absent one does, and is \<open>None\<close>.
\<close>

datatype CryptoKey = CryptoKey bytes

definition importKey :: "bytes \<Rightarrow> CryptoKey" where
  "importKey rawKey = CryptoKey rawKey"

record JWEHeader =
  alg :: jsstring
  enc :: jsstring
  kid :: "jsstring option"

record runtime =
  Buffer_from_base64 :: "jsstring \<Rightarrow> bytes"
  CompactEncrypt :: "bytes \<Rightarrow> JWEHeader \<Rightarrow> CryptoKey \<Rightarrow> bytes \<Rightarrow> error + jsstring"
  compactDecrypt :: "json \<Rightarrow> CryptoKey \<Rightarrow> error + (bytes \<times> JWEHeader)"

section \<open>Key material (types.ts, class EncryptionProvider)\<close>

record PrivateEnvironment =
  SECRET :: jsstring

text \<open>\<^verbatim>\<open>String.prototype.split(',')\<close> and \<^verbatim>\<open>String.prototype.trim\<close>.\<close>

fun split_on :: "16 word \<Rightarrow> jsstring \<Rightarrow> jsstring list" where
  "split_on sep [] = [[]]"
| "split_on sep (c # r) =
     (if c = sep then [] # split_on sep r
      else (case split_on sep r of
              [] \<Rightarrow> [[c]]
            | x # xs \<Rightarrow> (c # x) # xs))"

definition is_js_whitespace :: "16 word \<Rightarrow> bool" where
  "is_js_whitespace c =
     (c = 0x09 \<or> c = 0x0A \<or> c = 0x0B \<or> c = 0x0C \<or> c = 0x0D \<or> c = 0x20 \<or> c = 0xA0
      \<or> c = 0x1680 \<or> (0x2000 \<le> c \<and> c \<le> 0x200A) \<or> c = 0x2028 \<or> c = 0x2029
      \<or> c = 0x202F \<or> c = 0x205F \<or> c = 0x3000 \<or> c = 0xFEFF)"

definition trim :: "jsstring \<Rightarrow> jsstring" where
  "trim s = rev (dropWhile is_js_whitespace (rev (dropWhile is_js_whitespace s)))"

definition getSecretList :: "PrivateEnvironment \<Rightarrow> error + jsstring list" where
  "getSecretList env =
     (if SECRET env = [] then Inl (Error (str ''Configuration error''))
      else
        let secrets = filter (\<lambda>s. s \<noteq> []) (map trim (split_on 0x2C (SECRET env)))
        in if length secrets = 0 then Inl (Error (str ''Configuration error''))
           else Inr secrets)"

text \<open>
  A provider instance. Its state is the key cache, a \<^verbatim>\<open>Map\<close> from secret to key
  handle; the methods that fill it return the instance as they leave it.
\<close>

datatype EncryptionProvider =
  JWEA256GCMProvider (cryptoKeyCache: "(jsstring \<times> CryptoKey) list")

fun ALGORITHM_IDENTIFIER :: "EncryptionProvider \<Rightarrow> jsstring" where
  "ALGORITHM_IDENTIFIER (JWEA256GCMProvider cache) = str ''JWE-A256GCM''"

definition getCryptoKey ::
  "runtime \<Rightarrow> EncryptionProvider \<Rightarrow> jsstring \<Rightarrow> (error + CryptoKey) \<times> EncryptionProvider" where
  "getCryptoKey rt this base64Secret =
     (case Map_get (cryptoKeyCache this) base64Secret of
        Some cached \<Rightarrow> (Inr cached, this)
      | None \<Rightarrow>
          let rawKey = Buffer_from_base64 rt base64Secret
          in if length rawKey \<noteq> 32 then (Inl (Error (str ''Invalid secret key length'')), this)
             else
               let cryptoKey = importKey rawKey
               in (Inr cryptoKey,
                   JWEA256GCMProvider (Map_set (cryptoKeyCache this) base64Secret cryptoKey)))"

definition getActiveCryptoKey ::
  "runtime \<Rightarrow> PrivateEnvironment \<Rightarrow> EncryptionProvider \<Rightarrow> (error + CryptoKey) \<times> EncryptionProvider"
where
  "getActiveCryptoKey rt env this =
     (case getSecretList env of
        Inl e \<Rightarrow> (Inl e, this)
      | Inr secrets \<Rightarrow>
          (case secrets of
             [] \<Rightarrow> (Inl TypeError, this)
           | active # rest \<Rightarrow> getCryptoKey rt this active))"

text \<open>
  \<^verbatim>\<open>Promise.all(secrets.map(s => this.getCryptoKey(s)))\<close>: every secret is
  looked up, the keys come back in list order, and the first secret that fails
  makes the whole call fail.
\<close>

fun getCryptoKeys ::
  "runtime \<Rightarrow> EncryptionProvider \<Rightarrow> jsstring list \<Rightarrow> (error + CryptoKey list) \<times> EncryptionProvider"
where
  "getCryptoKeys rt this [] = (Inr [], this)"
| "getCryptoKeys rt this (s # secrets) =
     (case getCryptoKey rt this s of
        (k, this1) \<Rightarrow>
          (case getCryptoKeys rt this1 secrets of
             (ks, this2) \<Rightarrow>
               (case k of
                  Inl e \<Rightarrow> (Inl e, this2)
                | Inr key \<Rightarrow>
                    (case ks of
                       Inl e \<Rightarrow> (Inl e, this2)
                     | Inr keys \<Rightarrow> (Inr (key # keys), this2)))))"

definition getAllCryptoKeys ::
  "runtime \<Rightarrow> PrivateEnvironment \<Rightarrow> EncryptionProvider
     \<Rightarrow> (error + CryptoKey list) \<times> EncryptionProvider"
where
  "getAllCryptoKeys rt env this =
     (case getSecretList env of
        Inl e \<Rightarrow> (Inl e, this)
      | Inr secrets \<Rightarrow> getCryptoKeys rt this secrets)"

section \<open>The provider JWE-A256GCM (jweA256GcmProvider.ts)\<close>

text \<open>A context is bound or checked when it is truthy: supplied and not empty.\<close>

fun truthy_string :: "jsstring option \<Rightarrow> bool" where
  "truthy_string None = False"
| "truthy_string (Some s) = (s \<noteq> [])"

definition JWEA256GCMProvider_encrypt ::
  "runtime \<Rightarrow> PrivateEnvironment \<Rightarrow> EncryptionProvider \<Rightarrow> jsstring \<Rightarrow> jsstring option \<Rightarrow> bytes
     \<Rightarrow> (error + jsstring) \<times> EncryptionProvider"
where
  "JWEA256GCMProvider_encrypt rt env this plaintext context iv =
     (if plaintext = [] then (Inr [], this)
      else
        let encodedText = TextEncoder_encode plaintext;
            header = \<lparr>alg = str ''dir'', enc = str ''A256GCM'',
                      kid = (if truthy_string context then context else None)\<rparr>
        in (case getActiveCryptoKey rt env this of
              (Inl e, this') \<Rightarrow> (Inl e, this')
            | (Inr key, this') \<Rightarrow> (CompactEncrypt rt encodedText header key iv, this')))"

text \<open>The loop over the rotated keys: a key that does not open the object, or
  opens it under a header that does not carry the given context, is skipped.\<close>

fun try_keys :: "runtime \<Rightarrow> json \<Rightarrow> jsstring option \<Rightarrow> CryptoKey list \<Rightarrow> error + jsstring" where
  "try_keys rt jwe context [] = Inl (Error (str ''Decryption failed''))"
| "try_keys rt jwe context (key # keys) =
     (case compactDecrypt rt jwe key of
        Inl err \<Rightarrow> try_keys rt jwe context keys
      | Inr (plaintext, protectedHeader) \<Rightarrow>
          if truthy_string context \<and> kid protectedHeader \<noteq> context
          then try_keys rt jwe context keys
          else Inr (TextDecoder_decode plaintext))"

text \<open>The service hands \<^verbatim>\<open>metadata.data\<close> to \<^verbatim>\<open>decrypt\<close>, which at run time is any
  parsed value or \<^verbatim>\<open>undefined\<close>.\<close>

definition JWEA256GCMProvider_decrypt ::
  "runtime \<Rightarrow> PrivateEnvironment \<Rightarrow> EncryptionProvider \<Rightarrow> json option \<Rightarrow> jsstring option
     \<Rightarrow> (error + jsstring) \<times> EncryptionProvider"
where
  "JWEA256GCMProvider_decrypt rt env this jwe context =
     (case jwe of
        None \<Rightarrow> (Inr [], this)
      | Some v \<Rightarrow>
          if \<not> truthy v then (Inr [], this)
          else
            (case getAllCryptoKeys rt env this of
               (Inl e, this') \<Rightarrow> (Inl e, this')
             | (Inr keys, this') \<Rightarrow> (try_keys rt v context keys, this')))"

section \<open>The service (encryptionService.ts, factory.ts)\<close>

text \<open>
  \<^verbatim>\<open>Map\<close> objects live in a store, so that the \<^verbatim>\<open>Map\<close> a caller passes to the
  constructor and the \<^verbatim>\<open>Map\<close> the service keeps are two objects. A provider
  instance is kept with the entry that refers to it.
\<close>

type_synonym address = nat
type_synonym ProviderMap = "(jsstring \<times> EncryptionProvider) list"

record heap =
  maps :: "address \<Rightarrow> ProviderMap option"
  next_address :: address

record DecryptOptions =
  options_context :: "jsstring option"

record EncryptOptions = DecryptOptions +
  algorithm :: "jsstring option"

record EncryptionServiceConfig =
  config_providers :: address

record EncryptionService =
  providers :: address

definition EncryptionService_constructor ::
  "heap \<Rightarrow> EncryptionServiceConfig \<Rightarrow> (error + EncryptionService) \<times> heap" where
  "EncryptionService_constructor h config =
     (let entries = (case maps h (config_providers config) of None \<Rightarrow> [] | Some m \<Rightarrow> m);
          a = next_address h;
          h' = h\<lparr>maps := (maps h)(a \<mapsto> Map_new entries), next_address := a + 1\<rparr>
      in if Map_size (Map_new entries) = 0 then (Inl NoProvidersError, h')
         else (Inr \<lparr>providers = a\<rparr>, h'))"

definition createEncryptionService ::
  "heap \<Rightarrow> EncryptionProvider list \<Rightarrow> (error + EncryptionService) \<times> heap" where
  "createEncryptionService h provider_list =
     (let providerMap = next_address h;
          h1 = h\<lparr>maps := (maps h)(providerMap \<mapsto>
                       foldl (\<lambda>m provider. Map_set m (ALGORITHM_IDENTIFIER provider) provider)
                         [] provider_list),
                 next_address := providerMap + 1\<rparr>
      in EncryptionService_constructor h1 \<lparr>config_providers = providerMap\<rparr>)"

text \<open>\<^verbatim>\<open>this.providers\<close>: the entries of the service's own \<^verbatim>\<open>Map\<close>.\<close>

definition this_providers :: "heap \<Rightarrow> EncryptionService \<Rightarrow> ProviderMap" where
  "this_providers h this = (case maps h (providers this) of None \<Rightarrow> [] | Some m \<Rightarrow> m)"

definition getSupportedAlgorithms :: "heap \<Rightarrow> EncryptionService \<Rightarrow> jsstring list" where
  "getSupportedAlgorithms h this = Map_keys (this_providers h this)"

definition isAlgorithmSupported :: "heap \<Rightarrow> EncryptionService \<Rightarrow> jsstring \<Rightarrow> bool" where
  "isAlgorithmSupported h this a = Map_has (this_providers h this) a"

text \<open>\<^verbatim>\<open>this.providers.get(x)\<close> for a value that need not be a string: the keys
  are strings, so only a string finds an entry. The result is the entry found,
  the key with the provider.\<close>

fun Map_get_value :: "ProviderMap \<Rightarrow> json option \<Rightarrow> (jsstring \<times> EncryptionProvider) option" where
  "Map_get_value m (Some (JString s)) =
     (case Map_get m s of None \<Rightarrow> None | Some provider \<Rightarrow> Some (s, provider))"
| "Map_get_value m v = None"

definition getAlgorithmFromEncrypted :: "jsstring \<Rightarrow> json option" where
  "getAlgorithmFromEncrypted encryptedText =
     (case atob encryptedText of
        Inl e \<Rightarrow> None
      | Inr metadataJson \<Rightarrow>
          (case JSON_parse metadataJson of
             Inl e \<Rightarrow> None
           | Inr metadata \<Rightarrow>
               (case get_property metadata (str ''algorithm'') of
                  Inl e \<Rightarrow> None
                | Inr a \<Rightarrow> a)))"

text \<open>A method that ran a provider stores the instance as the provider left it.\<close>

definition store_provider :: "heap \<Rightarrow> EncryptionService \<Rightarrow> jsstring \<Rightarrow> EncryptionProvider \<Rightarrow> heap" where
  "store_provider h this a provider =
     h\<lparr>maps := (maps h)(providers this \<mapsto> Map_set (this_providers h this) a provider)\<rparr>"

definition EncryptionService_encrypt ::
  "runtime \<Rightarrow> PrivateEnvironment \<Rightarrow> heap \<Rightarrow> EncryptionService \<Rightarrow> jsstring \<Rightarrow> EncryptOptions
     \<Rightarrow> bytes \<Rightarrow> (error + jsstring) \<times> heap"
where
  "EncryptionService_encrypt rt env h this plaintext options iv =
     (case algorithm options of
        None \<Rightarrow> (Inl (NoAlgorithmSpecifiedError (getSupportedAlgorithms h this)), h)
      | Some a \<Rightarrow>
          if a = [] then (Inl (NoAlgorithmSpecifiedError (getSupportedAlgorithms h this)), h)
          else
            (case Map_get (this_providers h this) a of
               None \<Rightarrow>
                 (Inl (throw_UnsupportedAlgorithmError (Some (JString a))
                         (getSupportedAlgorithms h this)),
                  h)
             | Some provider \<Rightarrow>
                 (case JWEA256GCMProvider_encrypt rt env provider plaintext (options_context options) iv of
                    (Inl e, provider') \<Rightarrow>
                      (Inl (EncryptionError (str ''Encryption failed'') (Some a) (Some e)),
                       store_provider h this a provider')
                  | (Inr encrypted, provider') \<Rightarrow>
                      (case btoa (JSON_stringify_metadata (ALGORITHM_IDENTIFIER provider') encrypted)
                       of
                         Inl e \<Rightarrow>
                           (Inl (EncryptionError (str ''Encryption failed'') (Some a) (Some e)),
                            store_provider h this a provider')
                       | Inr envelope \<Rightarrow> (Inr envelope, store_provider h this a provider')))))"

text \<open>
  The body of the \<^verbatim>\<open>try\<close> block of \<^verbatim>\<open>decrypt\<close>, and its \<^verbatim>\<open>catch\<close> clause: an
  \<open>UnsupportedAlgorithmError\<close> or a \<open>DecryptionError\<close> is thrown again as it
  is, anything else becomes the cause of a new \<open>DecryptionError\<close>.
\<close>

definition decrypt_try ::
  "runtime \<Rightarrow> PrivateEnvironment \<Rightarrow> heap \<Rightarrow> EncryptionService \<Rightarrow> jsstring \<Rightarrow> DecryptOptions option
     \<Rightarrow> (error + jsstring) \<times> heap"
where
  "decrypt_try rt env h this encryptedText options =
     (case atob encryptedText of
        Inl e \<Rightarrow> (Inl e, h)
      | Inr metadataJson \<Rightarrow>
          (case JSON_parse metadataJson of
             Inl e \<Rightarrow> (Inl e, h)
           | Inr metadata \<Rightarrow>
               (case get_property metadata (str ''algorithm'') of
                  Inl e \<Rightarrow> (Inl e, h)
                | Inr metadata_algorithm \<Rightarrow>
                    (case Map_get_value (this_providers h this) metadata_algorithm of
                       None \<Rightarrow>
                         (Inl (throw_UnsupportedAlgorithmError metadata_algorithm
                                 (getSupportedAlgorithms h this)), h)
                     | Some (key, provider) \<Rightarrow>
                         (case get_property metadata (str ''data'') of
                            Inl e \<Rightarrow> (Inl e, h)
                          | Inr metadata_data \<Rightarrow>
                              (case JWEA256GCMProvider_decrypt rt env provider metadata_data
                                      (case options of None \<Rightarrow> None | Some opts \<Rightarrow> options_context opts)
                               of
                                 (r, provider') \<Rightarrow>
                                   (r, store_provider h this key provider')))))))"

fun decrypt_catch :: "error \<Rightarrow> error" where
  "decrypt_catch (UnsupportedAlgorithmError requested available) =
     UnsupportedAlgorithmError requested available"
| "decrypt_catch (DecryptionError message a cause) = DecryptionError message a cause"
| "decrypt_catch error = DecryptionError (str ''Decryption failed'') None (Some error)"

definition EncryptionService_decrypt ::
  "runtime \<Rightarrow> PrivateEnvironment \<Rightarrow> heap \<Rightarrow> EncryptionService \<Rightarrow> jsstring \<Rightarrow> DecryptOptions option
     \<Rightarrow> (error + jsstring) \<times> heap"
where
  "EncryptionService_decrypt rt env h this encryptedText options =
     (if encryptedText = [] then (Inl (DecryptionError (str ''Empty ciphertext'') None None), h)
      else
        (case decrypt_try rt env h this encryptedText options of
           (Inl error, h') \<Rightarrow> (Inl (decrypt_catch error), h')
         | (Inr plaintext, h') \<Rightarrow> (Inr plaintext, h')))"

definition reEncrypt ::
  "runtime \<Rightarrow> PrivateEnvironment \<Rightarrow> heap \<Rightarrow> EncryptionService \<Rightarrow> jsstring \<Rightarrow> DecryptOptions
     \<Rightarrow> EncryptOptions \<Rightarrow> bytes \<Rightarrow> (error + jsstring) \<times> heap"
where
  "reEncrypt rt env h this encryptedText oldOptions newOptions iv =
     (case EncryptionService_decrypt rt env h this encryptedText (Some oldOptions) of
        (Inl e, h') \<Rightarrow> (Inl e, h')
      | (Inr decrypted, h') \<Rightarrow> EncryptionService_encrypt rt env h' this decrypted newOptions iv)"

text \<open>
  The composition the tests run, \<^verbatim>\<open>service.decrypt(await service.encrypt(plaintext,
  options), decryptOptions)\<close>, with the environment at decryption time as a
  parameter of its own, so that the secret list can change in between.
\<close>

definition decrypt_encrypt ::
  "runtime \<Rightarrow> PrivateEnvironment \<Rightarrow> PrivateEnvironment \<Rightarrow> heap \<Rightarrow> EncryptionService \<Rightarrow> jsstring
     \<Rightarrow> EncryptOptions \<Rightarrow> bytes \<Rightarrow> DecryptOptions option \<Rightarrow> error + jsstring"
where
  "decrypt_encrypt rt env env2 h this plaintext options iv decryptOptions =
     (case EncryptionService_encrypt rt env h this plaintext options iv of
        (Inl e, h') \<Rightarrow> Inl e
      | (Inr encrypted, h') \<Rightarrow>
          fst (EncryptionService_decrypt rt env2 h' this encrypted decryptOptions))"

section \<open>What is assumed of the primitives\<close>

text \<open>
  The contract of the jose library the proofs rely on, for a 256-bit key and a
  header with \<^verbatim>\<open>alg: 'dir'\<close> and \<^verbatim>\<open>enc: 'A256GCM'\<close>: sealing succeeds and gives a
  non-empty compact serialisation (letters, digits, \<open>-\<close>, \<open>_\<close> and \<open>.\<close>);
  opening it with the sealing key gives back the text and the header; opening
  it with any other key fails.
\<close>

definition compact_char :: "16 word \<Rightarrow> bool" where
  "compact_char c =
     ((0x30 \<le> c \<and> c \<le> 0x39) \<or> (0x41 \<le> c \<and> c \<le> 0x5A) \<or> (0x61 \<le> c \<and> c \<le> 0x7A)
      \<or> c = 0x2D \<or> c = 0x5F \<or> c = 0x2E)"

definition jose_contract :: "runtime \<Rightarrow> bool" where
  "jose_contract rt \<longleftrightarrow>
     (\<forall>text h raw iv.
        length raw = 32 \<and> alg h = str ''dir'' \<and> enc h = str ''A256GCM'' \<longrightarrow>
        (\<exists>jwe. CompactEncrypt rt text h (CryptoKey raw) iv = Inr jwe
           \<and> jwe \<noteq> [] \<and> list_all compact_char jwe
           \<and> compactDecrypt rt (JString jwe) (CryptoKey raw) = Inr (text, h)
           \<and> (\<forall>key'. key' \<noteq> CryptoKey raw \<longrightarrow>
                  (\<exists>e. compactDecrypt rt (JString jwe) key' = Inl e))))"

text \<open>
  An idealised instance of the parameter, on which the service can be run: the
  sealed object lists the key identifier, the initialisation vector, the text
  and the key in hexadecimal, and opens exactly under the key it names. Secrets
  are decoded as \<^verbatim>\<open>atob\<close> decodes.
\<close>

definition hex_byte :: "8 word \<Rightarrow> jsstring" where
  "hex_byte b = [hex_digit (unat b div 16), hex_digit (unat b mod 16)]"

definition hex_bytes :: "bytes \<Rightarrow> jsstring" where
  "hex_bytes bs = concat (map hex_byte bs)"

fun unhex_bytes :: "jsstring \<Rightarrow> bytes option" where
  "unhex_bytes [] = Some []"
| "unhex_bytes [a] = None"
| "unhex_bytes (a # b # r) =
     (case (hex_value a, hex_value b, unhex_bytes r) of
        (Some x, Some y, Some bs) \<Rightarrow> Some (of_nat (x * 16 + y) # bs)
      | _ \<Rightarrow> None)"

definition hex_units :: "jsstring \<Rightarrow> jsstring" where
  "hex_units s = concat (map (\<lambda>c. drop 2 (unicode_escape c)) s)"

fun unhex_units :: "jsstring \<Rightarrow> jsstring option" where
  "unhex_units (a # b # c # d # r) =
     (case (hex_value a, hex_value b, hex_value c, hex_value d, unhex_units r) of
        (Some w, Some x, Some y, Some z, Some s) \<Rightarrow>
          Some (of_nat (((w * 16 + x) * 16 + y) * 16 + z) # s)
      | _ \<Rightarrow> None)"
| "unhex_units [] = Some []"
| "unhex_units r = None"

definition reference_seal :: "bytes \<Rightarrow> JWEHeader \<Rightarrow> CryptoKey \<Rightarrow> bytes \<Rightarrow> error + jsstring" where
  "reference_seal text h key iv =
     (case key of
        CryptoKey raw \<Rightarrow>
          Inr ((case kid h of None \<Rightarrow> [0x6E] | Some k \<Rightarrow> 0x6B # hex_units k)
               @ [0x2E] @ hex_bytes iv @ [0x2E] @ hex_bytes text @ [0x2E] @ hex_bytes raw))"

definition reference_kid :: "jsstring \<Rightarrow> jsstring option option" where
  "reference_kid field =
     (case field of
        [] \<Rightarrow> None
      | c # r \<Rightarrow>
          if c = 0x6E \<and> r = [] then Some None
          else if c = 0x6B then map_option Some (unhex_units r)
          else None)"

definition reference_open :: "json \<Rightarrow> CryptoKey \<Rightarrow> error + (bytes \<times> JWEHeader)" where
  "reference_open v key =
     (case v of
        JString jwe \<Rightarrow>
          (case split_on 0x2E jwe of
             [f1, f2, f3, f4] \<Rightarrow>
               (case (reference_kid f1, unhex_bytes f2, unhex_bytes f3, unhex_bytes f4) of
                  (Some k, Some iv, Some text, Some raw) \<Rightarrow>
                    if CryptoKey raw = key
                    then Inr (text, \<lparr>alg = str ''dir'', enc = str ''A256GCM'', kid = k\<rparr>)
                    else Inl (JOSEError (str ''decryption operation failed''))
                | _ \<Rightarrow> Inl (JOSEError (str ''JWE invalid'')))
           | _ \<Rightarrow> Inl (JOSEError (str ''Invalid Compact JWE'')))
      | _ \<Rightarrow> Inl (JOSEError (str ''Compact JWE must be a string or Uint8Array'')))"

definition reference_runtime :: runtime where
  "reference_runtime =
     \<lparr>Buffer_from_base64 =
        (\<lambda>s. case atob s of Inl e \<Rightarrow> [] | Inr t \<Rightarrow> map (\<lambda>c. of_nat (unat c)) t),
      CompactEncrypt = reference_seal,
      compactDecrypt = reference_open\<rparr>"

section \<open>Well-formed stores\<close>

text \<open>The allocator hands out \<open>next_address\<close>: every address in use lies below it.\<close>

definition heap_ok :: "heap \<Rightarrow> bool" where
  "heap_ok h \<longleftrightarrow> (\<forall>a. maps h a \<noteq> None \<longrightarrow> a < next_address h)"

section \<open>Notions used in the statements\<close>

text \<open>
  A scalar value is a code point that is not a surrogate. A string is well
  formed when every surrogate in it is half of a pair, a high surrogate
  followed by a low one.
\<close>

definition scalar :: "nat \<Rightarrow> bool" where
  "scalar cp \<longleftrightarrow> cp < 0x110000 \<and> \<not> (0xD800 \<le> cp \<and> cp \<le> 0xDFFF)"

fun well_formed :: "jsstring \<Rightarrow> bool" where
  "well_formed [] = True"
| "well_formed [c] = (\<not> is_surrogate c)"
| "well_formed (c # d # r) =
     (if is_high_surrogate c \<and> is_low_surrogate d then well_formed r
      else \<not> is_surrogate c \<and> well_formed (d # r))"

text \<open>
  What \<open>getCryptoKey\<close> computes when the cache is empty, and a cache that agrees
  with it: every cached handle is the one a fresh import would give.
\<close>

definition derive_key :: "runtime \<Rightarrow> jsstring \<Rightarrow> error + CryptoKey" where
  "derive_key rt s =
     (if length (Buffer_from_base64 rt s) \<noteq> 32 then Inl (Error (str ''Invalid secret key length''))
      else Inr (importKey (Buffer_from_base64 rt s)))"

fun derive_keys :: "runtime \<Rightarrow> jsstring list \<Rightarrow> error + CryptoKey list" where
  "derive_keys rt [] = Inr []"
| "derive_keys rt (s # secrets) =
     (case derive_key rt s of
        Inl e \<Rightarrow> Inl e
      | Inr key \<Rightarrow>
          (case derive_keys rt secrets of
             Inl e \<Rightarrow> Inl e
           | Inr keys \<Rightarrow> Inr (key # keys)))"

definition cache_ok :: "runtime \<Rightarrow> EncryptionProvider \<Rightarrow> bool" where
  "cache_ok rt this \<longleftrightarrow>
     (\<forall>s k. Map_get (cryptoKeyCache this) s = Some k \<longrightarrow> derive_key rt s = Inr k)"

definition derive_all :: "runtime \<Rightarrow> PrivateEnvironment \<Rightarrow> error + CryptoKey list" where
  "derive_all rt env =
     (case getSecretList env of
        Inl e \<Rightarrow> Inl e
      | Inr secrets \<Rightarrow> derive_keys rt secrets)"

text \<open>
  A service is well typed when every provider is registered under its own
  identifier (the type \<^verbatim>\<open>Map<SupportedAlgorithm, EncryptionProvider>\<close> and the
  factory see to it), and its caches agree with the runtime.
\<close>

definition service_ok :: "runtime \<Rightarrow> heap \<Rightarrow> EncryptionService \<Rightarrow> bool" where
  "service_ok rt h this \<longleftrightarrow>
     list_all (\<lambda>(k, provider). k = ALGORITHM_IDENTIFIER provider \<and> cache_ok rt provider)
       (this_providers h this)"

text \<open>The first secret of the list is a 256-bit key; every secret is one.\<close>

definition active_key_ok :: "runtime \<Rightarrow> PrivateEnvironment \<Rightarrow> bool" where
  "active_key_ok rt env =
     (case getSecretList env of
        Inl e \<Rightarrow> False
      | Inr secrets \<Rightarrow>
          (case secrets of
             [] \<Rightarrow> False
           | active # rest \<Rightarrow> length (Buffer_from_base64 rt active) = 32))"

definition all_keys_ok :: "runtime \<Rightarrow> PrivateEnvironment \<Rightarrow> bool" where
  "all_keys_ok rt env =
     (case getSecretList env of
        Inl e \<Rightarrow> False
      | Inr secrets \<Rightarrow> list_all (\<lambda>s. length (Buffer_from_base64 rt s) = 32) secrets)"

text \<open>The protected header the provider writes for a context.\<close>

definition protected_header :: "jsstring option \<Rightarrow> JWEHeader" where
  "protected_header ctx =
     \<lparr>alg = str ''dir'', enc = str ''A256GCM'',
      kid = (if truthy_string ctx then ctx else None)\<rparr>"

text \<open>
  One pass through the body of the loop of \<open>decrypt\<close>: the plaintext when the
  key opens the object and the header passes the check of the context.
\<close>

definition key_opens :: "runtime \<Rightarrow> json \<Rightarrow> jsstring option \<Rightarrow> CryptoKey \<Rightarrow> jsstring option" where
  "key_opens rt jwe context key =
     (case compactDecrypt rt jwe key of
        Inl err \<Rightarrow> None
      | Inr (plaintext, protectedHeader) \<Rightarrow>
          if truthy_string context \<and> kid protectedHeader \<noteq> context then None
          else Some (TextDecoder_decode plaintext))"

text \<open>The sextets and the padding of a base64 encoding, for the proofs about
  \<open>btoa\<close> and \<open>atob\<close>.\<close>

fun sextets :: "nat list \<Rightarrow> nat list" where
  "sextets [] = []"
| "sextets [x] = [x div 4, (x mod 4) * 16]"
| "sextets [x, y] = [x div 4, (x mod 4) * 16 + y div 16, (y mod 16) * 4]"
| "sextets (x # y # z # r) =
     (x div 4) # ((x mod 4) * 16 + y div 16) # ((y mod 16) * 4 + z div 64) # (z mod 64) # sextets r"

fun padding :: "nat list \<Rightarrow> jsstring" where
  "padding [] = []"
| "padding [x] = [0x3D, 0x3D]"
| "padding [x, y] = [0x3D]"
| "padding (x # y # z # r) = padding r"

section \<open>A concrete configuration\<close>

text \<open>
  The configuration of the test suite: one provider registered under its own
  identifier, in a store that holds the service's \<^verbatim>\<open>Map\<close> at address 0, and a
  secret list of one 256-bit key (32 zero bytes in base64).
\<close>

definition example_heap :: heap where
  "example_heap =
     \<lparr>maps = [0 \<mapsto> [(str ''JWE-A256GCM'', JWEA256GCMProvider [])]], next_address = 1\<rparr>"

definition example_service :: EncryptionService where
  "example_service = \<lparr>providers = 0\<rparr>"

definition example_env :: PrivateEnvironment where
  "example_env = \<lparr>SECRET = str ''AAAAAAAAAAAAAAAAAAAAAAAAAAAAAAAAAAAAAAAAAAA=''\<rparr>"

text \<open>
  Primitives under which every key opens every object, the plaintext being the
  first byte of the key: with them the result of \<open>decrypt\<close> tells which key was
  tried first.
\<close>

definition lenient_runtime :: runtime where
  "lenient_runtime =
     reference_runtime\<lparr>compactDecrypt :=
       \<lambda>jwe key. case key of CryptoKey rawKey \<Rightarrow>
         Inr (take 1 rawKey, \<lparr>alg = str ''dir'', enc = str ''A256GCM'', kid = None\<rparr>)\<rparr>"

section \<open>Properties of the runtime functions\<close>

subsection \<open>atob undoes btoa\<close>

lemma b64_encode_split: "b64_encode bs = map b64_char (sextets bs) @ padding bs"
  by (induction bs rule: sextets.induct) simp_all

lemma sextet_bounds:
  fixes x y z :: nat
  shows "x < 256 \<Longrightarrow> x div 4 < 64"
    and "y < 256 \<Longrightarrow> (x mod 4) * 16 + y div 16 < 64"
    and "z < 256 \<Longrightarrow> (y mod 16) * 4 + z div 64 < 64"
    and "(x mod 4) * 16 < 64"
    and "(y mod 16) * 4 < 64"
  by arith+

lemma sextets_bound: "list_all (\<lambda>b. b < 256) bs \<Longrightarrow> list_all (\<lambda>n. n < 64) (sextets bs)"
  by (induction bs rule: sextets.induct) (simp_all add: sextet_bounds)

lemma octet_1: "(y::nat) < 256 \<Longrightarrow> x div 4 * 4 + ((x mod 4) * 16 + y div 16) div 16 = x"
  by (simp add: div_add1_eq)

lemma octet_1': "x div 4 * 4 + ((x mod 4) * 16) div 16 = (x::nat)"
  by simp

lemma octet_2:
  "(y::nat) < 256 \<Longrightarrow> z < 256 \<Longrightarrow>
   (((x mod 4) * 16 + y div 16) mod 16) * 16 + ((y mod 16) * 4 + z div 64) div 4 = y"
  by (simp add: div_add1_eq mod_add_eq)

lemma octet_2':
  "(y::nat) < 256 \<Longrightarrow> (((x mod 4) * 16 + y div 16) mod 16) * 16 + ((y mod 16) * 4) div 4 = y"
  by simp

lemma octet_3: "(z::nat) < 256 \<Longrightarrow> (((y mod 16) * 4 + z div 64) mod 4) * 64 + z mod 64 = z"
  by (simp add: div_add1_eq)

lemma b64_decode_sextets: "list_all (\<lambda>b. b < 256) bs \<Longrightarrow> b64_decode (sextets bs) = bs"
proof (induction bs rule: sextets.induct)
  case 1
  show ?case by simp
next
  case (2 x)
  show ?case by (simp only: sextets.simps b64_decode.simps octet_1')
next
  case (3 x y)
  then have "y < 256" by simp
  then show ?case by (simp only: sextets.simps b64_decode.simps octet_1 octet_2')
next
  case (4 x y z r)
  then have "y < 256" "z < 256" "b64_decode (sextets r) = r" by simp_all
  then show ?case by (simp only: sextets.simps b64_decode.simps octet_1 octet_2 octet_3)
qed

lemma b64_char_unat: "n < 64 \<Longrightarrow> unat (b64_char n) =
    (if n < 26 then n + 65 else if n < 52 then n + 71 else if n < 62 then n - 4
     else if n = 62 then 43 else 47)"
  by (simp add: b64_char_def unat_of_nat)

lemma b64_index_char: "n < 64 \<Longrightarrow> b64_index (b64_char n) = Some n"
  by (auto simp: b64_index_def b64_char_unat Let_def)

lemma b64_char_not_pad: "n < 64 \<Longrightarrow> b64_char n \<noteq> 0x3D"
proof
  assume "n < 64" and "b64_char n = 0x3D"
  then have "unat (b64_char n) = 61" by simp
  with \<open>n < 64\<close> show False
    by (auto simp: b64_char_unat split: if_splits)
qed

lemma b64_char_not_ws: "n < 64 \<Longrightarrow> \<not> is_ascii_whitespace (b64_char n)"
proof
  assume n: "n < 64" and "is_ascii_whitespace (b64_char n)"
  then have "unat (b64_char n) \<in> {9, 10, 12, 13, 32}"
    by (auto simp: is_ascii_whitespace_def)
  with n show False
    by (auto simp: b64_char_unat split: if_splits)
qed


lemma length_sextets_padding: "(length (sextets bs) + length (padding bs)) mod 4 = 0"
  by (induction bs rule: sextets.induct) simp_all

lemma length_sextets: "length (sextets bs) mod 4 \<noteq> 1"
  by (induction bs rule: sextets.induct) simp_all

lemma strip_padding_body:
  "list_all (\<lambda>c. c \<noteq> 0x3D) body \<Longrightarrow>
   rev (strip_padding_rev (rev (body @ padding bs))) = body"
proof -
  assume body: "list_all (\<lambda>c. c \<noteq> 0x3D) body"
  have nopad: "strip_padding_rev (rev body) = rev body"
  proof (cases "rev body")
    case Nil
    then show ?thesis by simp
  next
    case (Cons a r)
    then have "a \<in> set body" by (metis list.set_intros(1) set_rev)
    with body have "a \<noteq> 0x3D" by (simp add: list_all_iff)
    with Cons show ?thesis by (cases r) simp_all
  qed
  have one: "strip_padding_rev (0x3D # rev body) = rev body"
  proof (cases "rev body")
    case Nil
    then show ?thesis by simp
  next
    case (Cons a r)
    then have "a \<in> set body" by (metis list.set_intros(1) set_rev)
    with body have "a \<noteq> 0x3D" by (simp add: list_all_iff)
    with Cons show ?thesis by simp
  qed
  have "padding bs = [] \<or> padding bs = [0x3D] \<or> padding bs = [0x3D, 0x3D]"
    by (induction bs rule: padding.induct) simp_all
  then show ?thesis
    using nopad one by auto
qed

lemma map_filter_b64_index:
  "list_all (\<lambda>n. n < 64) ns \<Longrightarrow> List.map_filter b64_index (map b64_char ns) = ns"
  by (induction ns) (simp_all add: b64_index_char)

lemma atob_b64_encode:
  assumes "list_all (\<lambda>b. b < 256) bs"
  shows "atob (b64_encode bs) = Inr (map of_nat bs)"
proof -
  let ?body = "map b64_char (sextets bs)"
  have sx: "list_all (\<lambda>n. n < 64) (sextets bs)"
    using assms by (rule sextets_bound)
  have body_pad: "list_all (\<lambda>c. c \<noteq> 0x3D) ?body"
    using sx by (simp add: list_all_iff b64_char_not_pad)
  have body_ws: "filter (\<lambda>c. \<not> is_ascii_whitespace c) ?body = ?body"
    using sx by (simp add: list_all_iff b64_char_not_ws)
  have pad_ws: "filter (\<lambda>c. \<not> is_ascii_whitespace c) (padding bs) = padding bs"
    by (induction bs rule: padding.induct) (simp_all add: is_ascii_whitespace_def)
  have d0: "filter (\<lambda>c. \<not> is_ascii_whitespace c) (b64_encode bs) = ?body @ padding bs"
    by (simp add: b64_encode_split body_ws pad_ws del: map_map)
  have len: "length (?body @ padding bs) mod 4 = 0"
    using length_sextets_padding [of bs] by simp
  have d1: "rev (strip_padding_rev (rev (?body @ padding bs))) = ?body"
    using body_pad by (rule strip_padding_body)
  have len1: "length ?body mod 4 \<noteq> 1"
    using length_sextets [of bs] by simp
  have idx: "list_all (\<lambda>c. b64_index c \<noteq> None) ?body"
    using sx by (simp add: list_all_iff b64_index_char)
  have mf: "List.map_filter b64_index ?body = sextets bs"
    using sx by (rule map_filter_b64_index)
  show ?thesis
    unfolding atob_def Let_def d0 using len len1 idx
    by (simp only: d1 mf b64_decode_sextets [OF assms] simp_thms if_True if_False)
qed

lemma atob_btoa:
  assumes "list_all (\<lambda>c. c \<le> 0xFF) s"
  shows "\<exists>e. btoa s = Inr e \<and> atob e = Inr s"
proof -
  have "list_all (\<lambda>b. b < 256) (map unat s)"
    using assms by (auto simp: list_all_iff word_le_nat_alt less_Suc_eq_le)
  then have "atob (b64_encode (map unat s)) = Inr (map of_nat (map unat s))"
    by (rule atob_b64_encode)
  then show ?thesis
    using assms by (simp add: btoa_def comp_def)
qed

subsection \<open>JSON.parse reads the serialised metadata\<close>

lemma compact_char_plain:
  assumes "compact_char c"
  shows "\<not> c < 0x20" "c \<noteq> 0x22" "c \<noteq> 0x5C" "c \<noteq> 0x08" "c \<noteq> 0x09" "c \<noteq> 0x0A"
    "c \<noteq> 0x0C" "c \<noteq> 0x0D" "\<not> is_high_surrogate c" "\<not> is_low_surrogate c" "c \<le> 0xFF"
  using assms
  by (auto simp: compact_char_def is_high_surrogate_def is_low_surrogate_def
      word_le_nat_alt word_less_nat_alt)

lemma quote_chars_compact: "list_all compact_char s \<Longrightarrow> quote_chars s = s"
  by (induction s) (simp_all add: compact_char_plain)

lemma parse_string_chars_compact:
  "list_all compact_char s \<Longrightarrow> parse_string_chars (s @ 0x22 # rest) = Some (s, rest)"
  by (induction s) (simp_all add: compact_char_plain)

lemma compact_str_keys:
  "list_all compact_char (str ''algorithm'')" "list_all compact_char (str ''version'')"
  "list_all compact_char (str ''data'')" "list_all compact_char (str ''JWE-A256GCM'')"
  by (simp_all add: str_def compact_char_def)


lemma QuoteJSONString_compact:
  "list_all compact_char s \<Longrightarrow> QuoteJSONString s = 0x22 # s @ [0x22]"
  by (simp add: QuoteJSONString_def quote_chars_compact)

lemma skip_ws_nonws: "\<not> is_json_ws c \<Longrightarrow> skip_ws (c # r) = c # r"
  by (simp add: skip_ws_def)

lemma parse_value_string:
  "list_all compact_char s \<Longrightarrow>
   parse_value (Suc n) (0x22 # s @ 0x22 # rest) = Some (JString s, rest)"
  by (simp add: skip_ws_def is_json_ws_def parse_string_chars_compact)

lemma bit_length_1: "bit_length 1 = 1"
  by (simp add: bit_length.simps [of 1] bit_length.simps [of 0])

lemma Number_value_1: "Number_value False 1 = Finite 1"
  by (simp add: Number_value_def binary_exponent_def power2_def round_half_even_def
      bit_length_1 Let_def)

lemma parse_value_one:
  "parse_value (Suc n) (0x31 # 0x2C # rest) = Some (JNumber (Finite 1), 0x2C # rest)"
  by (simp add: skip_ws_def is_json_ws_def str_def is_digit_def parse_number_def
      digits_value_def Let_def Number_value_1)

lemma parse_members_metadata:
  assumes "list_all compact_char a" and "list_all compact_char d"
  shows "parse_members (Suc (Suc (Suc (Suc n)))) []
           (0x22 # str ''algorithm'' @ 0x22 # 0x3A # 0x22 # a @ 0x22 # 0x2C
              # 0x22 # str ''version'' @ 0x22 # 0x3A # 0x31 # 0x2C
              # 0x22 # str ''data'' @ 0x22 # 0x3A # 0x22 # d @ 0x22 # 0x7D # rest)
         = Some ([(str ''algorithm'', JString a), (str ''version'', JNumber (Finite 1)),
                  (str ''data'', JString d)], rest)"
  using assms
  by (simp add: skip_ws_def is_json_ws_def parse_string_chars_compact compact_str_keys
      parse_value_string parse_value_one del: parse_value.simps)

lemma parse_value_metadata:
  assumes "list_all compact_char a" and "list_all compact_char d"
  shows "parse_value (Suc (Suc (Suc (Suc (Suc n))))) (JSON_stringify_metadata a d)
         = Some (JObject [(str ''algorithm'', JString a), (str ''version'', JNumber (Finite 1)),
                          (str ''data'', JString d)], [])"
  using parse_members_metadata [OF assms, of n "[]"] assms
  by (simp add: JSON_stringify_metadata_def QuoteJSONString_compact compact_str_keys
      skip_ws_def is_json_ws_def str_def [of "''1''"] del: parse_members.simps)

lemma JSON_parse_metadata:
  assumes "list_all compact_char a" and "list_all compact_char d"
  shows "JSON_parse (JSON_stringify_metadata a d)
         = Inr (JObject [(str ''algorithm'', JString a), (str ''version'', JNumber (Finite 1)),
                         (str ''data'', JString d)])"
proof -
  have "3 \<le> length (JSON_stringify_metadata a d)"
    by (simp add: JSON_stringify_metadata_def)
  then obtain n where "2 * length (JSON_stringify_metadata a d) + 2 = Suc (Suc (Suc (Suc (Suc n))))"
    by (metis add_2_eq_Suc' le_Suc_ex mult_2 numeral_3_eq_3 add_Suc_right add_Suc)
  then show ?thesis
    by (simp add: JSON_parse_def parse_value_metadata [OF assms] skip_ws_def
        del: parse_value.simps)
qed

subsection \<open>TextDecoder after TextEncoder\<close>

lemma mod_offsets:
  fixes a d :: nat
  shows "d < 64 \<Longrightarrow> (128 + d) mod 64 = d"
    and "a < 32 \<Longrightarrow> (192 + a) mod 32 = a"
    and "a < 16 \<Longrightarrow> (224 + a) mod 16 = a"
    and "a < 8 \<Longrightarrow> (240 + a) mod 8 = a"
  using mod_mult_self4 [of 64 2 d] mod_mult_self4 [of 32 6 a] mod_mult_self4 [of 16 14 a]
    mod_mult_self4 [of 8 30 a]
  by simp_all

lemma decode_2:
  "2 \<le> a \<Longrightarrow> a < 32 \<Longrightarrow> d < 64 \<Longrightarrow>
   utf8_decoder 0 0 0 0x80 0xBF ((0xC0 + a) # (0x80 + d) # rest)
     = (a * 64 + d) # utf8_decoder 0 0 0 0x80 0xBF rest"
  by (simp add: mod_offsets)

lemma decode_3:
  "a < 16 \<Longrightarrow> c < 64 \<Longrightarrow> d < 64 \<Longrightarrow> (a = 0 \<longrightarrow> 32 \<le> c) \<Longrightarrow> (a = 13 \<longrightarrow> c < 32) \<Longrightarrow>
   utf8_decoder 0 0 0 0x80 0xBF ((0xE0 + a) # (0x80 + c) # (0x80 + d) # rest)
     = ((a * 64 + c) * 64 + d) # utf8_decoder 0 0 0 0x80 0xBF rest"
  by (auto simp add: mod_offsets)

lemma decode_4:
  "a \<le> 4 \<Longrightarrow> b < 64 \<Longrightarrow> c < 64 \<Longrightarrow> d < 64 \<Longrightarrow> (a = 0 \<longrightarrow> 16 \<le> b) \<Longrightarrow> (a = 4 \<longrightarrow> b < 16) \<Longrightarrow>
   utf8_decoder 0 0 0 0x80 0xBF ((0xF0 + a) # (0x80 + b) # (0x80 + c) # (0x80 + d) # rest)
     = (((a * 64 + b) * 64 + c) * 64 + d) # utf8_decoder 0 0 0 0x80 0xBF rest"
  by (auto simp add: mod_offsets)

lemma utf8_decode_encode_scalar:
  assumes "scalar cp"
  shows "utf8_decoder 0 0 0 0x80 0xBF (utf8_encode_scalar cp @ rest)
           = cp # utf8_decoder 0 0 0 0x80 0xBF rest"
    and "list_all (\<lambda>b. b < 256) (utf8_encode_scalar cp)"
proof -
  define q1 where "q1 = cp div 64"
  define d where "d = cp mod 64"
  define q2 where "q2 = q1 div 64"
  define c where "c = q1 mod 64"
  define a where "a = q2 div 64"
  define b where "b = q2 mod 64"
  have cp: "cp = q1 * 64 + d" and d: "d < 64"
    by (simp_all add: q1_def d_def)
  have q1: "q1 = q2 * 64 + c" and c: "c < 64"
    by (simp_all add: q2_def c_def)
  have q2: "q2 = a * 64 + b" and b: "b < 64"
    by (simp_all add: a_def b_def)
  have d4096: "cp div 4096 = q2"
    using div_mult2_eq [of cp 64 64] by (simp add: q2_def q1_def)
  have d262144: "cp div 262144 = a"
    using div_mult2_eq [of cp 4096 64] by (simp add: a_def d4096)
  from assms have range: "cp < 0x110000" "\<not> (0xD800 \<le> cp \<and> cp \<le> 0xDFFF)"
    by (simp_all add: scalar_def)
  consider (one) "cp < 0x80" | (two) "0x80 \<le> cp" "cp < 0x800"
    | (three) "0x800 \<le> cp" "cp < 0x10000" | (four) "0x10000 \<le> cp"
    by linarith
  then have "utf8_decoder 0 0 0 0x80 0xBF (utf8_encode_scalar cp @ rest)
               = cp # utf8_decoder 0 0 0 0x80 0xBF rest
             \<and> list_all (\<lambda>b. b < 256) (utf8_encode_scalar cp)"
  proof cases
    case one
    then show ?thesis
      by (simp add: utf8_encode_scalar_def)
  next
    case two
    then have enc: "utf8_encode_scalar cp = [0xC0 + q1, 0x80 + d]"
      by (simp add: utf8_encode_scalar_def q1_def d_def)
    from two cp d have "2 \<le> q1" "q1 < 32"
      by linarith+
    then show ?thesis
      unfolding enc using d cp by (simp add: decode_2 del: utf8_decoder.simps)
  next
    case three
    then have enc: "utf8_encode_scalar cp = [0xE0 + q2, 0x80 + c, 0x80 + d]"
      by (simp add: utf8_encode_scalar_def d4096 q1_def c_def d_def)
    from three range cp q1 c d
    have "q2 < 16" "q2 = 0 \<longrightarrow> 32 \<le> c" "q2 = 13 \<longrightarrow> c < 32"
      by linarith+
    then show ?thesis
      unfolding enc using c d cp q1 by (simp add: decode_3 del: utf8_decoder.simps)
  next
    case four
    then have enc: "utf8_encode_scalar cp = [0xF0 + a, 0x80 + b, 0x80 + c, 0x80 + d]"
      by (simp add: utf8_encode_scalar_def d4096 d262144 q1_def c_def d_def b_def)
    from four range cp q1 q2 b c d
    have "a \<le> 4" "a = 0 \<longrightarrow> 16 \<le> b" "a = 4 \<longrightarrow> b < 16"
      by linarith+
    then show ?thesis
      unfolding enc using b c d cp q1 q2 by (simp add: decode_4 del: utf8_decoder.simps)
  qed
  then show "utf8_decoder 0 0 0 0x80 0xBF (utf8_encode_scalar cp @ rest)
               = cp # utf8_decoder 0 0 0 0x80 0xBF rest"
    and "list_all (\<lambda>b. b < 256) (utf8_encode_scalar cp)"
    by simp_all
qed


lemma utf8_decode_encode:
  "list_all scalar cps \<Longrightarrow>
   utf8_decoder 0 0 0 0x80 0xBF (concat (map utf8_encode_scalar cps)) = cps"
  by (induction cps) (simp_all add: utf8_decode_encode_scalar(1) del: utf8_decoder.simps,
      simp)

lemma utf8_encode_octets:
  "list_all scalar cps \<Longrightarrow> list_all (\<lambda>b. b < 256) (concat (map utf8_encode_scalar cps))"
  by (induction cps) (simp_all add: utf8_decode_encode_scalar(2))

lemma unat_of_nat_octets:
  "list_all (\<lambda>b. b < 256) bs \<Longrightarrow> map unat (map of_nat bs :: 8 word list) = bs"
  by (induction bs) (simp_all add: unat_of_nat)

lemma surrogate_unat:
  "is_surrogate c \<longleftrightarrow> 0xD800 \<le> unat c \<and> unat c \<le> 0xDFFF"
  "is_high_surrogate c \<longleftrightarrow> 0xD800 \<le> unat c \<and> unat c \<le> 0xDBFF"
  "is_low_surrogate c \<longleftrightarrow> 0xDC00 \<le> unat c \<and> unat c \<le> 0xDFFF"
  by (simp_all add: is_surrogate_def is_high_surrogate_def is_low_surrogate_def word_le_nat_alt)

lemma unat_16_bound: "unat (c :: 16 word) < 65536"
  using unsigned_less [of c, where ?'a = nat] by simp

lemma scalar_values_scalar: "list_all scalar (scalar_values s)"
proof (induction s rule: scalar_values.induct)
  case 1
  show ?case by simp
next
  case (2 c)
  show ?case
    using unat_16_bound [of c] by (simp add: scalar_def surrogate_unat)
next
  case (3 c d r)
  have "is_high_surrogate c \<and> is_low_surrogate d \<Longrightarrow>
        scalar (0x10000 + (unat c - 0xD800) * 0x400 + (unat d - 0xDC00))"
    by (simp add: scalar_def surrogate_unat) linarith
  with 3 show ?case
    using unat_16_bound [of c] by (auto simp: scalar_def surrogate_unat)
qed

lemma TextDecoder_TextEncoder:
  "TextDecoder_decode (TextEncoder_encode s)
     = concat (map utf16_encode_scalar (strip_bom (scalar_values s)))"
  by (simp add: TextDecoder_decode_def TextEncoder_encode_def unat_of_nat_octets
      utf8_encode_octets utf8_decode_encode scalar_values_scalar del: map_map)


lemma utf16_pair:
  assumes "is_high_surrogate c" and "is_low_surrogate d"
  shows "utf16_encode_scalar (0x10000 + (unat c - 0xD800) * 0x400 + (unat d - 0xDC00)) = [c, d]"
proof -
  define h where "h = unat c - 0xD800"
  define l where "l = unat d - 0xDC00"
  from assms have c: "unat c = 0xD800 + h" and d: "unat d = 0xDC00 + l" and l: "l < 0x400"
    by (auto simp: h_def l_def surrogate_unat)
  have "(h * 0x400 + l) div 0x400 = h" "(h * 0x400 + l) mod 0x400 = l"
    using l by simp_all
  then have "utf16_encode_scalar (0x10000 + h * 0x400 + l)
               = [of_nat (unat c), of_nat (unat d)]"
    by (simp add: utf16_encode_scalar_def c d)
  then show ?thesis
    by (simp add: h_def l_def)
qed

lemma utf16_single: "utf16_encode_scalar (unat (c :: 16 word)) = [c]"
  using unat_16_bound [of c] by (simp add: utf16_encode_scalar_def)

lemma utf16_scalar_values:
  "well_formed s \<Longrightarrow> concat (map utf16_encode_scalar (scalar_values s)) = s"
  by (induction s rule: scalar_values.induct) (simp_all add: utf16_pair utf16_single)

lemma strip_bom_scalar_values:
  "\<not> next_is s 0xFEFF \<Longrightarrow> strip_bom (scalar_values s) = scalar_values s"
proof (induction s rule: scalar_values.induct)
  case 1
  show ?case by simp
next
  case (2 c)
  then have "unat c \<noteq> 0xFEFF"
    by (simp add: word_unat_eq_iff)
  then show ?case by simp
next
  case (3 c d r)
  then have "unat c \<noteq> 0xFEFF"
    by (simp add: word_unat_eq_iff)
  then show ?case by simp
qed

lemma text_roundtrip:
  "well_formed s \<Longrightarrow> \<not> next_is s 0xFEFF \<Longrightarrow> TextDecoder_decode (TextEncoder_encode s) = s"
  by (simp add: TextDecoder_TextEncoder strip_bom_scalar_values utf16_scalar_values)

subsection \<open>The idealised primitives meet the contract\<close>

lemma hex_digit_unat: "n < 16 \<Longrightarrow> unat (hex_digit n) = (if n < 10 then n + 48 else n + 87)"
  by (simp add: hex_digit_def unat_of_nat)

lemma hex_value_digit: "n < 16 \<Longrightarrow> hex_value (hex_digit n) = Some n"
  by (auto simp: hex_value_def hex_digit_unat Let_def)

lemma hex_digit_compact: "n < 16 \<Longrightarrow> compact_char (hex_digit n) \<and> hex_digit n \<noteq> 0x2E"
  by (auto simp: compact_char_def word_le_nat_alt word_unat_eq_iff hex_digit_unat)

lemma unat_8_bound: "unat (b :: 8 word) < 256"
  using unsigned_less [of b, where ?'a = nat] by simp

lemma unhex_hex_bytes: "unhex_bytes (hex_bytes bs) = Some bs"
proof (induction bs)
  case Nil
  show ?case by (simp add: hex_bytes_def)
next
  case (Cons b bs)
  have "unat b div 16 < 16" "unat b mod 16 < 16"
    using unat_8_bound [of b] by simp_all
  moreover have "unat b div 16 * 16 + unat b mod 16 = unat b"
    by simp
  ultimately show ?case
    using Cons by (simp add: hex_bytes_def hex_byte_def hex_value_digit)
qed

lemma hex_bytes_compact:
  "list_all compact_char (hex_bytes bs)" "0x2E \<notin> set (hex_bytes bs)"
proof -
  have d: "unat b div 16 < 16" "unat b mod 16 < 16" for b :: "8 word"
    using unat_8_bound [of b] by simp_all
  show "list_all compact_char (hex_bytes bs)"
    by (induction bs) (simp_all add: hex_bytes_def hex_byte_def hex_digit_compact d)
  show "0x2E \<notin> set (hex_bytes bs)"
    by (induction bs) (simp_all add: hex_bytes_def hex_byte_def d hex_digit_compact [THEN conjunct2, symmetric] hex_digit_compact)
qed


lemma hex4_digits:
  fixes u :: nat
  shows "((u div 4096 * 16 + u div 256 mod 16) * 16 + u div 16 mod 16) * 16 + u mod 16 = u"
proof -
  define q1 where "q1 = u div 16"
  define q2 where "q2 = q1 div 16"
  have 1: "u = q1 * 16 + u mod 16"
    by (simp add: q1_def)
  have 2: "q1 = q2 * 16 + q1 mod 16"
    by (simp add: q2_def)
  have 3: "q2 = q2 div 16 * 16 + q2 mod 16"
    by simp
  have d256: "u div 256 = q2"
    using div_mult2_eq [of u 16 16] by (simp add: q2_def q1_def)
  have d4096: "u div 4096 = q2 div 16"
    using div_mult2_eq [of u 256 16] by (simp add: d256)
  show ?thesis
    unfolding d256 d4096 using 1 2 3 by (simp add: q1_def [symmetric])
qed

lemma unhex_hex_units: "unhex_units (hex_units s) = Some s"
proof (induction s)
  case Nil
  show ?case by (simp add: hex_units_def)
next
  case (Cons c s)
  have "unat c div 4096 < 16"
    using unat_16_bound [of c] by simp
  then show ?case
    using Cons hex4_digits [of "unat c"]
    by (simp add: hex_units_def unicode_escape_def hex_value_digit)
qed

lemma hex_units_compact:
  "list_all compact_char (hex_units s)" "0x2E \<notin> set (hex_units s)"
proof -
  have d: "unat c div 4096 < 16" for c :: "16 word"
    using unat_16_bound [of c] by simp
  show "list_all compact_char (hex_units s)"
    by (induction s) (simp_all add: hex_units_def unicode_escape_def hex_digit_compact d)
  show "0x2E \<notin> set (hex_units s)"
    by (induction s)
      (simp_all add: hex_units_def unicode_escape_def d
        hex_digit_compact [THEN conjunct2, symmetric] hex_digit_compact)
qed

lemma split_on_field:
  "sep \<notin> set f \<Longrightarrow> split_on sep (f @ sep # rest) = f # split_on sep rest"
  by (induction f) auto

lemma split_on_last: "sep \<notin> set f \<Longrightarrow> split_on sep f = [f]"
  by (induction f) auto

lemma reference_kid_field:
  "reference_kid (case k of None \<Rightarrow> [0x6E] | Some s \<Rightarrow> 0x6B # hex_units s) = Some k"
  by (cases k) (simp_all add: reference_kid_def unhex_hex_units)

lemma kid_field_compact:
  "list_all compact_char (case k of None \<Rightarrow> [0x6E] | Some s \<Rightarrow> 0x6B # hex_units s)"
  "0x2E \<notin> set (case k of None \<Rightarrow> [0x6E] | Some s \<Rightarrow> 0x6B # hex_units s)"
  by (cases k; simp add: hex_units_compact compact_char_def)+

lemma reference_open_seal:
  assumes "alg h = str ''dir''" and "enc h = str ''A256GCM''"
  shows "\<exists>jwe. reference_seal text h (CryptoKey raw) iv = Inr jwe
     \<and> jwe \<noteq> [] \<and> list_all compact_char jwe
     \<and> reference_open (JString jwe) (CryptoKey raw) = Inr (text, h)
     \<and> (\<forall>key'. key' \<noteq> CryptoKey raw \<longrightarrow> (\<exists>e. reference_open (JString jwe) key' = Inl e))"
proof -
  let ?f1 = "case kid h of None \<Rightarrow> [0x6E] | Some s \<Rightarrow> 0x6B # hex_units s"
  let ?jwe = "?f1 @ 0x2E # hex_bytes iv @ 0x2E # hex_bytes text @ 0x2E # hex_bytes raw"
  have seal: "reference_seal text h (CryptoKey raw) iv = Inr ?jwe"
    by (simp add: reference_seal_def)
  have fields: "split_on 0x2E ?jwe = [?f1, hex_bytes iv, hex_bytes text, hex_bytes raw]"
    by (simp add: split_on_field split_on_last kid_field_compact hex_bytes_compact)
  have hdr: "\<lparr>alg = str ''dir'', enc = str ''A256GCM'', kid = kid h\<rparr> = h"
    using assms by simp
  have opened: "reference_open (JString ?jwe) key
      = (if CryptoKey raw = key then Inr (text, h)
         else Inl (JOSEError (str ''decryption operation failed'')))" for key
    unfolding reference_open_def
    by (simp add: fields reference_kid_field unhex_hex_bytes hdr del: split_on.simps)
  have chars: "list_all compact_char ?jwe"
    by (simp add: kid_field_compact hex_bytes_compact compact_char_def)
  show ?thesis
    using seal chars by (intro exI [of _ ?jwe]) (auto simp: opened simp del: split_on.simps)
qed

lemma reference_runtime_contract: "jose_contract reference_runtime"
  unfolding jose_contract_def reference_runtime_def
  using reference_open_seal by simp

section \<open>Properties of the key material\<close>

lemma Map_get_Map_set: "Map_get (Map_set m k v) k' = (if k' = k then Some v else Map_get m k')"
  by (induction m) (auto simp: Map_get_def)

lemma getCryptoKey_result: "cache_ok rt this \<Longrightarrow> fst (getCryptoKey rt this s) = derive_key rt s"
proof (cases "Map_get (cryptoKeyCache this) s")
  case None
  then show ?thesis
    by (simp add: getCryptoKey_def derive_key_def Let_def)
next
  case (Some k)
  assume "cache_ok rt this"
  with Some have "derive_key rt s = Inr k"
    by (simp add: cache_ok_def)
  with Some show ?thesis
    by (simp add: getCryptoKey_def)
qed

lemma getCryptoKey_cache_ok: "cache_ok rt this \<Longrightarrow> cache_ok rt (snd (getCryptoKey rt this s))"
  by (auto simp: getCryptoKey_def cache_ok_def derive_key_def Let_def Map_get_Map_set
      split: option.splits if_splits)

lemma getCryptoKeys_result:
  "cache_ok rt this \<Longrightarrow> fst (getCryptoKeys rt this secrets) = derive_keys rt secrets"
proof (induction secrets arbitrary: this)
  case Nil
  then show ?case by simp
next
  case (Cons s secrets)
  from Cons.prems have 1: "fst (getCryptoKey rt this s) = derive_key rt s"
    by (rule getCryptoKey_result)
  from Cons.prems have "cache_ok rt (snd (getCryptoKey rt this s))"
    by (rule getCryptoKey_cache_ok)
  then have 2: "fst (getCryptoKeys rt (snd (getCryptoKey rt this s)) secrets)
                  = derive_keys rt secrets"
    by (rule Cons.IH)
  show ?case
    using 1 2 by (cases "getCryptoKey rt this s"; cases "getCryptoKeys rt (snd (getCryptoKey rt this s)) secrets")
      (auto split: sum.splits)
qed

lemma getCryptoKeys_cache_ok:
  "cache_ok rt this \<Longrightarrow> cache_ok rt (snd (getCryptoKeys rt this secrets))"
proof (induction secrets arbitrary: this)
  case Nil
  then show ?case by simp
next
  case (Cons s secrets)
  from Cons.prems have "cache_ok rt (snd (getCryptoKey rt this s))"
    by (rule getCryptoKey_cache_ok)
  then have "cache_ok rt (snd (getCryptoKeys rt (snd (getCryptoKey rt this s)) secrets))"
    by (rule Cons.IH)
  then show ?case
    by (auto split: prod.splits sum.splits)
qed

section \<open>Properties of the provider\<close>

lemma derive_key_valid:
  "length (Buffer_from_base64 rt s) = 32 \<Longrightarrow> derive_key rt s = Inr (importKey (Buffer_from_base64 rt s))"
  by (simp add: derive_key_def)

lemma getCryptoKey_cache_ok':
  "cache_ok rt this \<Longrightarrow> getCryptoKey rt this s = (r, this') \<Longrightarrow> cache_ok rt this'"
  using getCryptoKey_cache_ok [of rt this s] by simp

lemma getCryptoKeys_cache_ok':
  "cache_ok rt this \<Longrightarrow> getCryptoKeys rt this secrets = (r, this') \<Longrightarrow> cache_ok rt this'"
  using getCryptoKeys_cache_ok [of rt this secrets] by simp

lemma provider_encrypt_cache_ok:
  "cache_ok rt this \<Longrightarrow> cache_ok rt (snd (JWEA256GCMProvider_encrypt rt env this p ctx iv))"
  by (auto simp: JWEA256GCMProvider_encrypt_def getActiveCryptoKey_def Let_def
      split: sum.splits list.splits prod.splits dest: getCryptoKey_cache_ok')

lemma provider_encrypt_result:
  assumes "cache_ok rt this" and "p \<noteq> []" and "getSecretList env = Inr (s # rest)"
    and "length (Buffer_from_base64 rt s) = 32"
  shows "fst (JWEA256GCMProvider_encrypt rt env this p ctx iv)
           = CompactEncrypt rt (TextEncoder_encode p) (protected_header ctx)
               (importKey (Buffer_from_base64 rt s)) iv"
proof -
  have "fst (getCryptoKey rt this s) = Inr (importKey (Buffer_from_base64 rt s))"
    using assms(1,4) by (simp add: getCryptoKey_result derive_key_valid)
  then show ?thesis
    using assms(2,3)
    by (cases "getCryptoKey rt this s")
      (simp add: JWEA256GCMProvider_encrypt_def getActiveCryptoKey_def protected_header_def Let_def)
qed

lemma provider_encrypt_empty:
  "JWEA256GCMProvider_encrypt rt env this [] ctx iv = (Inr [], this)"
  by (simp add: JWEA256GCMProvider_encrypt_def)

lemma provider_decrypt_cache_ok:
  "cache_ok rt this \<Longrightarrow> cache_ok rt (snd (JWEA256GCMProvider_decrypt rt env this jwe ctx))"
  by (auto simp: JWEA256GCMProvider_decrypt_def getAllCryptoKeys_def
      split: sum.splits option.splits prod.splits dest: getCryptoKeys_cache_ok')

lemma provider_decrypt_result:
  assumes "cache_ok rt this"
  shows "fst (JWEA256GCMProvider_decrypt rt env this (Some (JString d)) ctx)
           = (if d = [] then Inr []
              else (case derive_all rt env of
                      Inl e \<Rightarrow> Inl e
                    | Inr keys \<Rightarrow> try_keys rt (JString d) ctx keys))"
proof (cases "getSecretList env")
  case (Inl e)
  then show ?thesis
    by (simp add: JWEA256GCMProvider_decrypt_def getAllCryptoKeys_def derive_all_def)
next
  case (Inr secrets)
  have "fst (getCryptoKeys rt this secrets) = derive_keys rt secrets"
    using assms by (rule getCryptoKeys_result)
  then show ?thesis
    using Inr
    by (cases "getCryptoKeys rt this secrets")
      (simp add: JWEA256GCMProvider_decrypt_def getAllCryptoKeys_def derive_all_def
        split: sum.splits)
qed

lemma try_keys_first:
  "try_keys rt v ctx keys
     = (case List.map_filter (key_opens rt v ctx) keys of
          [] \<Rightarrow> Inl (Error (str ''Decryption failed''))
        | r # rs \<Rightarrow> Inr r)"
  by (induction keys)
    (auto simp: key_opens_def split: sum.splits prod.splits)

lemma provider_decrypt_first:
  "truthy v \<Longrightarrow> fst (getAllCryptoKeys rt env provider) = Inr keys \<Longrightarrow>
   fst (JWEA256GCMProvider_decrypt rt env provider (Some v) ctx)
     = (case List.map_filter (key_opens rt v ctx) keys of
          [] \<Rightarrow> Inl (Error (str ''Decryption failed''))
        | r # rs \<Rightarrow> Inr r)"
  by (cases "getAllCryptoKeys rt env provider")
    (simp add: JWEA256GCMProvider_decrypt_def try_keys_first)

lemma try_keys_sealed:
  assumes "compactDecrypt rt v K = Inr (text, hdr)"
    and "\<forall>key'. key' \<noteq> K \<longrightarrow> (\<exists>e. compactDecrypt rt v key' = Inl e)"
  shows "try_keys rt v ctx keys
           = (if K \<in> set keys \<and> (truthy_string ctx \<longrightarrow> kid hdr = ctx)
              then Inr (TextDecoder_decode text)
              else Inl (Error (str ''Decryption failed'')))"
proof (induction keys)
  case Nil
  show ?case by simp
next
  case (Cons key keys)
  show ?case
  proof (cases "key = K")
    case True
    with assms(1) Cons show ?thesis by simp
  next
    case False
    with assms(2) obtain e where "compactDecrypt rt v key = Inl e" by blast
    with False Cons show ?thesis by simp
  qed
qed


section \<open>Properties of the service\<close>

subsection \<open>Registry\<close>

lemma Map_has_keys: "Map_has m k \<longleftrightarrow> k \<in> set (Map_keys m)"
  by (simp add: Map_has_def Map_keys_def map_of_eq_None_iff)

text \<open>
  Claim C10. For every service and every string \<open>a\<close>, \<open>isAlgorithmSupported\<close>
  answers true exactly when \<open>a\<close> is an element of the list that
  \<open>getSupportedAlgorithms\<close> returns.
\<close>

theorem isAlgorithmSupported_iff_listed:
  "isAlgorithmSupported h this a = (a \<in> set (getSupportedAlgorithms h this))"
  unfolding isAlgorithmSupported_def getSupportedAlgorithms_def
  by (rule Map_has_keys)

subsection \<open>The constructor copies the Map\<close>

lemma Map_set_nonempty: "Map_set m k v \<noteq> []"
  by (cases m) (auto split: if_splits)

lemma foldl_Map_set_nonempty:
  "m \<noteq> [] \<or> es \<noteq> [] \<Longrightarrow> foldl (\<lambda>m (k, v). Map_set m k v) m es \<noteq> []"
  by (induction es arbitrary: m) (auto simp: Map_set_nonempty)

lemma Map_new_nonempty: "es \<noteq> [] \<Longrightarrow> Map_new es \<noteq> []"
  by (simp add: Map_new_def foldl_Map_set_nonempty)

lemma this_providers_frame:
  "providers this \<noteq> m \<Longrightarrow>
   this_providers (g\<lparr>maps := (maps g)(m := x)\<rparr>) this = this_providers g this"
  by (simp add: this_providers_def)

lemma encrypt_result_registry:
  "this_providers g' this = this_providers g this \<Longrightarrow>
   fst (EncryptionService_encrypt rt env g' this p opts iv)
     = fst (EncryptionService_encrypt rt env g this p opts iv)"
  by (simp add: EncryptionService_encrypt_def getSupportedAlgorithms_def
      split: option.splits prod.splits sum.splits)

lemma decrypt_result_registry:
  "this_providers g' this = this_providers g this \<Longrightarrow>
   fst (EncryptionService_decrypt rt env g' this e opts)
     = fst (EncryptionService_decrypt rt env g this e opts)"
  by (simp add: EncryptionService_decrypt_def decrypt_try_def getSupportedAlgorithms_def
      split: option.splits prod.splits sum.splits)

text \<open>
  Claim C9. The constructor copies the provider \<^verbatim>\<open>Map\<close> it is given: built from a
  non-empty \<^verbatim>\<open>Map\<close> at address \<open>m\<close>, the service keeps the entries in a \<^verbatim>\<open>Map\<close>
  of its own, and in every later store \<open>g\<close>, replacing the \<^verbatim>\<open>Map\<close> at \<open>m\<close> by
  any other contents \<open>x\<close> (entries added, entries removed) changes the result of
  none of \<open>getSupportedAlgorithms\<close>, \<open>isAlgorithmSupported\<close>, \<open>encrypt\<close> and
  \<open>decrypt\<close>.
\<close>

theorem constructor_copies_map:
  assumes "heap_ok h" and "maps h m = Some entries" and "entries \<noteq> []"
  shows "\<exists>this h'. EncryptionService_constructor h \<lparr>config_providers = m\<rparr> = (Inr this, h')
     \<and> maps h' (providers this) = Some (Map_new entries)
     \<and> (\<forall>g x. getSupportedAlgorithms (g\<lparr>maps := (maps g)(m := x)\<rparr>) this
                  = getSupportedAlgorithms g this
          \<and> (\<forall>a. isAlgorithmSupported (g\<lparr>maps := (maps g)(m := x)\<rparr>) this a
                  = isAlgorithmSupported g this a)
          \<and> (\<forall>rt env p opts iv.
                fst (EncryptionService_encrypt rt env (g\<lparr>maps := (maps g)(m := x)\<rparr>) this p opts iv)
                  = fst (EncryptionService_encrypt rt env g this p opts iv))
          \<and> (\<forall>rt env e opts.
                fst (EncryptionService_decrypt rt env (g\<lparr>maps := (maps g)(m := x)\<rparr>) this e opts)
                  = fst (EncryptionService_decrypt rt env g this e opts)))"
proof -
  let ?svc = "\<lparr>providers = next_address h\<rparr>"
  let ?h' = "h\<lparr>maps := (maps h)(next_address h \<mapsto> Map_new entries),
               next_address := next_address h + 1\<rparr>"
  from assms(1,2) have fresh: "providers ?svc \<noteq> m"
    by (auto simp: heap_ok_def)
  have built: "EncryptionService_constructor h \<lparr>config_providers = m\<rparr> = (Inr ?svc, ?h')"
    using assms(2,3) Map_new_nonempty [of entries]
    by (simp add: EncryptionService_constructor_def Map_size_def Let_def)
  have frame: "this_providers (g\<lparr>maps := (maps g)(m := x)\<rparr>) ?svc = this_providers g ?svc"
    for g x
    using fresh by (rule this_providers_frame)
  show ?thesis
    apply (intro exI conjI allI)
         apply (rule built)
        apply simp
       apply (simp add: getSupportedAlgorithms_def frame)
      apply (simp add: isAlgorithmSupported_def frame)
     apply (rule encrypt_result_registry, rule frame)
    apply (rule decrypt_result_registry, rule frame)
    done
qed

theorem constructor_copies_map_witness:
  "heap_ok example_heap
   \<and> (\<exists>this h'. EncryptionService_constructor example_heap \<lparr>config_providers = 0\<rparr>
                   = (Inr this, h')
        \<and> maps h' (providers this)
            = Some (Map_new [(str ''JWE-A256GCM'', JWEA256GCMProvider [])])
        \<and> (\<forall>g x. getSupportedAlgorithms (g\<lparr>maps := (maps g)(0 := x)\<rparr>) this
                     = getSupportedAlgorithms g this
             \<and> (\<forall>a. isAlgorithmSupported (g\<lparr>maps := (maps g)(0 := x)\<rparr>) this a
                     = isAlgorithmSupported g this a)
             \<and> (\<forall>rt env p opts iv.
                   fst (EncryptionService_encrypt rt env (g\<lparr>maps := (maps g)(0 := x)\<rparr>) this
                          p opts iv)
                     = fst (EncryptionService_encrypt rt env g this p opts iv))
             \<and> (\<forall>rt env e opts.
                   fst (EncryptionService_decrypt rt env (g\<lparr>maps := (maps g)(0 := x)\<rparr>) this
                          e opts)
                     = fst (EncryptionService_decrypt rt env g this e opts))))"
proof -
  have ok: "heap_ok example_heap"
    by (simp add: heap_ok_def example_heap_def)
  have m: "maps example_heap 0 = Some [(str ''JWE-A256GCM'', JWEA256GCMProvider [])]"
    by (simp add: example_heap_def)
  show ?thesis
    using ok constructor_copies_map [OF ok m] by simp
qed

subsection \<open>Algorithm selection in encrypt\<close>

text \<open>
  Claim C7. For every plaintext, \<open>encrypt\<close> with a missing or empty algorithm
  fails with \<open>NoAlgorithmSpecifiedError\<close>, and with an algorithm that is not
  registered it fails with \<open>UnsupportedAlgorithmError\<close>; both errors carry the
  registered identifiers. No provider runs: the outcome is the same for every
  runtime, environment and randomness, and the store is returned as it was.
\<close>

theorem encrypt_algorithm_errors:
  "(algorithm options = None \<or> algorithm options = Some [] \<longrightarrow>
      EncryptionService_encrypt rt env h this plaintext options iv =
        (Inl (NoAlgorithmSpecifiedError (getSupportedAlgorithms h this)), h))
   \<and> (\<forall>a. algorithm options = Some a \<and> a \<noteq> [] \<and> \<not> isAlgorithmSupported h this a \<longrightarrow>
      EncryptionService_encrypt rt env h this plaintext options iv =
        (Inl (UnsupportedAlgorithmError (Some (JString a)) (getSupportedAlgorithms h this)), h))"
  by (auto simp: EncryptionService_encrypt_def isAlgorithmSupported_def Map_has_def Map_get_def
      throw_UnsupportedAlgorithmError_def)

theorem encrypt_algorithm_errors_witness:
  "EncryptionService_encrypt reference_runtime example_env example_heap example_service
     (str ''data'') \<lparr>options_context = None, algorithm = Some []\<rparr> []
     = (Inl (NoAlgorithmSpecifiedError [str ''JWE-A256GCM'']), example_heap)
   \<and> EncryptionService_encrypt reference_runtime example_env example_heap example_service
     (str ''data'') \<lparr>options_context = None, algorithm = Some (str ''INVALID'')\<rparr> []
     = (Inl (UnsupportedAlgorithmError (Some (JString (str ''INVALID''))) [str ''JWE-A256GCM'']),
        example_heap)"
  using encrypt_algorithm_errors [of "\<lparr>options_context = None, algorithm = Some []\<rparr>"
      reference_runtime example_env example_heap example_service "str ''data''" "[]"]
    encrypt_algorithm_errors [of
      "\<lparr>options_context = None, algorithm = Some (str ''INVALID'')\<rparr>"
      reference_runtime example_env example_heap example_service "str ''data''" "[]"]
  by (simp add: getSupportedAlgorithms_def isAlgorithmSupported_def this_providers_def
      Map_keys_def Map_has_def example_heap_def example_service_def str_def)

subsection \<open>Encrypting and then decrypting\<close>

lemma ALGORITHM_IDENTIFIER_const: "ALGORITHM_IDENTIFIER provider = str ''JWE-A256GCM''"
  by (cases provider) simp

lemma supported_lookup:
  "isAlgorithmSupported h this a \<longleftrightarrow> (\<exists>provider. Map_get (this_providers h this) a = Some provider)"
  by (simp add: isAlgorithmSupported_def Map_has_def Map_get_def)

lemma service_ok_lookup:
  assumes "service_ok rt h this" and "Map_get (this_providers h this) a = Some provider"
  shows "a = str ''JWE-A256GCM''" and "cache_ok rt provider"
proof -
  from assms(2) have "(a, provider) \<in> set (this_providers h this)"
    by (simp add: Map_get_def map_of_SomeD)
  with assms(1) have "a = ALGORITHM_IDENTIFIER provider \<and> cache_ok rt provider"
    by (auto simp: service_ok_def list_all_iff)
  then show "a = str ''JWE-A256GCM''" and "cache_ok rt provider"
    by (simp_all add: ALGORITHM_IDENTIFIER_const)
qed

lemma this_providers_store:
  "this_providers (store_provider h this a provider) this
     = Map_set (this_providers h this) a provider"
  by (simp add: store_provider_def this_providers_def)

lemma set_Map_set: "set (Map_set m k v) \<subseteq> insert (k, v) (set m)"
  by (induction m) (auto split: if_splits)

lemma service_ok_store:
  assumes "service_ok rt h this" and "cache_ok rt provider"
  shows "service_ok rt (store_provider h this (str ''JWE-A256GCM'') provider) this"
  using assms set_Map_set [of "this_providers h this" "str ''JWE-A256GCM''" provider]
  by (auto simp: service_ok_def list_all_iff this_providers_store ALGORITHM_IDENTIFIER_const)

lemma supported_store:
  "isAlgorithmSupported (store_provider h this a provider) this a"
  by (simp add: supported_lookup this_providers_store Map_get_Map_set)

lemma b64_encode_nonempty: "bs \<noteq> [] \<Longrightarrow> b64_encode bs \<noteq> []"
  by (induction bs rule: b64_encode.induct) simp_all

lemma metadata_latin1:
  assumes "list_all compact_char a" and "list_all compact_char d"
  shows "list_all (\<lambda>c. c \<le> 0xFF) (JSON_stringify_metadata a d)"
proof -
  have "list_all compact_char s \<Longrightarrow> list_all (\<lambda>c. c \<le> 0xFF) s" for s
    by (simp add: list_all_iff compact_char_plain)
  with assms show ?thesis
    by (simp add: JSON_stringify_metadata_def QuoteJSONString_compact compact_str_keys
        str_def [of "''1''"])
qed

lemma envelope:
  assumes "list_all compact_char d"
  shows "\<exists>e. btoa (JSON_stringify_metadata (str ''JWE-A256GCM'') d) = Inr e \<and> e \<noteq> []
           \<and> atob e = Inr (JSON_stringify_metadata (str ''JWE-A256GCM'') d)"
proof -
  let ?m = "JSON_stringify_metadata (str ''JWE-A256GCM'') d"
  have latin1: "list_all (\<lambda>c. c \<le> 0xFF) ?m"
    using compact_str_keys(4) assms by (rule metadata_latin1)
  then obtain e where e: "btoa ?m = Inr e" "atob e = Inr ?m"
    using atob_btoa by blast
  have "?m \<noteq> []"
    by (simp add: JSON_stringify_metadata_def)
  with e(1) latin1 have "e \<noteq> []"
    by (auto simp: btoa_def b64_encode_nonempty)
  with e show ?thesis by blast
qed


lemma metadata_properties:
  "get_property (JObject [(str ''algorithm'', JString a), (str ''version'', JNumber (Finite 1)),
      (str ''data'', JString d)]) (str ''algorithm'') = Inr (Some (JString a))"
  "get_property (JObject [(str ''algorithm'', JString a), (str ''version'', JNumber (Finite 1)),
      (str ''data'', JString d)]) (str ''data'') = Inr (Some (JString d))"
  by (simp_all add: str_def)

lemma key_names_distinct:
  "str ''algorithm'' \<noteq> str ''version''" "str ''algorithm'' \<noteq> str ''data''"
  "str ''version'' \<noteq> str ''data''"
  by (simp_all add: str_def)

lemma encrypt_registered:
  assumes "algorithm opts = Some a" and "a \<noteq> []"
    and "Map_get (this_providers h this) a = Some provider"
    and "JWEA256GCMProvider_encrypt rt env provider p (options_context opts) iv = (r, provider')"
  shows "EncryptionService_encrypt rt env h this p opts iv =
     (case r of
        Inl e \<Rightarrow> Inl (EncryptionError (str ''Encryption failed'') (Some a) (Some e))
      | Inr encrypted \<Rightarrow>
          (case btoa (JSON_stringify_metadata (str ''JWE-A256GCM'') encrypted) of
             Inl e \<Rightarrow> Inl (EncryptionError (str ''Encryption failed'') (Some a) (Some e))
           | Inr envelope \<Rightarrow> Inr envelope),
      store_provider h this a provider')"
  using assms
  by (simp add: EncryptionService_encrypt_def ALGORITHM_IDENTIFIER_const split: sum.splits)

lemma getAlgorithmFromEncrypted_envelope:
  assumes "list_all compact_char d"
    and "btoa (JSON_stringify_metadata (str ''JWE-A256GCM'') d) = Inr e"
  shows "getAlgorithmFromEncrypted e = Some (JString (str ''JWE-A256GCM''))"
proof -
  from envelope [OF assms(1)] assms(2)
  have "atob e = Inr (JSON_stringify_metadata (str ''JWE-A256GCM'') d)"
    by auto
  then show ?thesis
    by (simp add: getAlgorithmFromEncrypted_def JSON_parse_metadata compact_str_keys assms(1)
        key_names_distinct)
qed

lemma decrypt_result:
  "e \<noteq> [] \<Longrightarrow>
   fst (EncryptionService_decrypt rt env h this e dopts)
     = (case fst (decrypt_try rt env h this e dopts) of
          Inl err \<Rightarrow> Inl (decrypt_catch err)
        | Inr plaintext \<Rightarrow> Inr plaintext)"
  by (simp add: EncryptionService_decrypt_def split: prod.splits sum.splits)

lemma decrypt_envelope:
  assumes "service_ok rt h this" and "isAlgorithmSupported h this (str ''JWE-A256GCM'')"
    and "list_all compact_char d"
    and "btoa (JSON_stringify_metadata (str ''JWE-A256GCM'') d) = Inr e"
  shows "fst (EncryptionService_decrypt rt env h this e dopts) =
     (if d = [] then Inr []
      else (case derive_all rt env of
              Inl err \<Rightarrow> Inl (decrypt_catch err)
            | Inr keys \<Rightarrow>
                (case try_keys rt (JString d)
                        (case dopts of None \<Rightarrow> None | Some opts \<Rightarrow> options_context opts) keys of
                   Inl err \<Rightarrow> Inl (decrypt_catch err)
                 | Inr plaintext \<Rightarrow> Inr plaintext)))"
proof -
  from envelope [OF assms(3)] assms(4)
  have e: "e \<noteq> []" "atob e = Inr (JSON_stringify_metadata (str ''JWE-A256GCM'') d)"
    by auto
  from assms(2) obtain provider
    where provider: "Map_get (this_providers h this) (str ''JWE-A256GCM'') = Some provider"
    by (auto simp: supported_lookup)
  with assms(1) have "cache_ok rt provider"
    by (rule service_ok_lookup(2))
  then have r: "fst (JWEA256GCMProvider_decrypt rt env provider (Some (JString d)) ctx)
           = (if d = [] then Inr []
              else (case derive_all rt env of
                      Inl e \<Rightarrow> Inl e
                    | Inr keys \<Rightarrow> try_keys rt (JString d) ctx keys))" for ctx
    by (rule provider_decrypt_result)
  have "fst (decrypt_try rt env h this e dopts)
          = fst (JWEA256GCMProvider_decrypt rt env provider (Some (JString d))
                   (case dopts of None \<Rightarrow> None | Some opts \<Rightarrow> options_context opts))"
    by (simp add: decrypt_try_def e JSON_parse_metadata compact_str_keys assms(3)
        key_names_distinct provider split: prod.splits)
  then show ?thesis
    by (simp add: decrypt_result [OF e(1)] r split: sum.splits)
qed


lemma derive_keys_error: "derive_keys rt secrets = Inl err \<Longrightarrow> \<exists>m. err = Error m"
  by (induction secrets arbitrary: err)
    (auto simp: derive_key_def split: sum.splits if_splits)

lemma derive_all_error: "derive_all rt env = Inl err \<Longrightarrow> \<exists>m. err = Error m"
  by (auto simp: derive_all_def getSecretList_def Let_def derive_keys_error
      split: sum.splits if_splits)

lemma decrypt_catch_derive_all:
  "derive_all rt env = Inl err \<Longrightarrow>
   decrypt_catch err = DecryptionError (str ''Decryption failed'') None (Some err)"
  by (auto dest: derive_all_error)

lemma encrypt_then_decrypt:
  assumes "jose_contract rt" and "service_ok rt h this" and "algorithm opts = Some a"
    and "isAlgorithmSupported h this a" and "p \<noteq> []"
    and "getSecretList env = Inr (s # rest)" and "length (Buffer_from_base64 rt s) = 32"
  shows "\<exists>e h'. EncryptionService_encrypt rt env h this p opts iv = (Inr e, h')
     \<and> e \<noteq> [] \<and> service_ok rt h' this \<and> isAlgorithmSupported h' this a
     \<and> getAlgorithmFromEncrypted e = Some (JString a)
     \<and> (\<forall>env2 dopts.
          fst (EncryptionService_decrypt rt env2 h' this e dopts) =
            (case derive_all rt env2 of
               Inl err \<Rightarrow> Inl (DecryptionError (str ''Decryption failed'') None (Some err))
             | Inr keys \<Rightarrow>
                 if importKey (Buffer_from_base64 rt s) \<in> set keys
                    \<and> (truthy_string (case dopts of None \<Rightarrow> None | Some d \<Rightarrow> options_context d)
                         \<longrightarrow> kid (protected_header (options_context opts))
                               = (case dopts of None \<Rightarrow> None | Some d \<Rightarrow> options_context d))
                 then Inr (TextDecoder_decode (TextEncoder_encode p))
                 else Inl (DecryptionError (str ''Decryption failed'') None
                             (Some (Error (str ''Decryption failed''))))))"
proof -
  let ?K = "importKey (Buffer_from_base64 rt s)"
  let ?hdr = "protected_header (options_context opts)"
  let ?text = "TextEncoder_encode p"
  from assms(4) obtain provider
    where provider: "Map_get (this_providers h this) a = Some provider"
    by (auto simp: supported_lookup)
  with assms(2) have a: "a = str ''JWE-A256GCM''" and cache: "cache_ok rt provider"
    by (rule service_ok_lookup)+
  from assms(1,7) obtain jwe
    where sealed: "CompactEncrypt rt ?text ?hdr ?K iv = Inr jwe" "jwe \<noteq> []"
        "list_all compact_char jwe"
      and opened: "compactDecrypt rt (JString jwe) ?K = Inr (?text, ?hdr)"
        "\<forall>key'. key' \<noteq> ?K \<longrightarrow> (\<exists>err. compactDecrypt rt (JString jwe) key' = Inl err)"
    unfolding jose_contract_def importKey_def protected_header_def
    by (metis JWEHeader.select_convs(1,2))
  from envelope [OF sealed(3)] obtain e
    where e: "btoa (JSON_stringify_metadata (str ''JWE-A256GCM'') jwe) = Inr e" "e \<noteq> []"
    by blast
  obtain r provider'
    where pe: "JWEA256GCMProvider_encrypt rt env provider p (options_context opts) iv
                 = (r, provider')"
    by (cases "JWEA256GCMProvider_encrypt rt env provider p (options_context opts) iv")
  from provider_encrypt_result [OF cache assms(5,6,7), of "options_context opts" iv] pe sealed(1)
  have r: "r = Inr jwe"
    by simp
  from provider_encrypt_cache_ok [OF cache, of env p "options_context opts" iv] pe
  have cache': "cache_ok rt provider'"
    by simp
  let ?h' = "store_provider h this a provider'"
  have a_ne: "a \<noteq> []"
    by (simp add: a str_def)
  have enc: "EncryptionService_encrypt rt env h this p opts iv = (Inr e, ?h')"
    using encrypt_registered [OF assms(3) a_ne provider pe] by (simp add: r e(1))
  have ok': "service_ok rt ?h' this"
    unfolding a using assms(2) cache' by (rule service_ok_store)
  have sup': "isAlgorithmSupported ?h' this a"
    by (rule supported_store)
  have alg: "getAlgorithmFromEncrypted e = Some (JString a)"
    unfolding a using sealed(3) e(1) by (rule getAlgorithmFromEncrypted_envelope)
  have dec: "fst (EncryptionService_decrypt rt env2 ?h' this e dopts) =
            (case derive_all rt env2 of
               Inl err \<Rightarrow> Inl (DecryptionError (str ''Decryption failed'') None (Some err))
             | Inr keys \<Rightarrow>
                 if ?K \<in> set keys
                    \<and> (truthy_string (case dopts of None \<Rightarrow> None | Some d \<Rightarrow> options_context d)
                         \<longrightarrow> kid ?hdr = (case dopts of None \<Rightarrow> None | Some d \<Rightarrow> options_context d))
                 then Inr (TextDecoder_decode ?text)
                 else Inl (DecryptionError (str ''Decryption failed'') None
                             (Some (Error (str ''Decryption failed'')))))" for env2 dopts
  proof (cases "derive_all rt env2")
    case (Inl err)
    then show ?thesis
      using decrypt_envelope [OF ok' [unfolded a] sup' [unfolded a] sealed(3) e(1), of env2 dopts]
      by (simp add: a sealed(2) decrypt_catch_derive_all)
  next
    case (Inr keys)
    then show ?thesis
      using decrypt_envelope [OF ok' [unfolded a] sup' [unfolded a] sealed(3) e(1), of env2 dopts]
      by (simp add: a sealed(2) try_keys_sealed [OF opened])
  qed
  show ?thesis
    using enc e(2) ok' sup' alg dec by blast
qed

lemma encrypt_empty_then_decrypt:
  assumes "service_ok rt h this" and "algorithm opts = Some a"
    and "isAlgorithmSupported h this a"
  shows "\<exists>e h'. EncryptionService_encrypt rt env h this [] opts iv = (Inr e, h')
     \<and> e \<noteq> [] \<and> service_ok rt h' this \<and> isAlgorithmSupported h' this a
     \<and> getAlgorithmFromEncrypted e = Some (JString a)
     \<and> (\<forall>env2 dopts. fst (EncryptionService_decrypt rt env2 h' this e dopts) = Inr [])"
proof -
  from assms(3) obtain provider
    where provider: "Map_get (this_providers h this) a = Some provider"
    by (auto simp: supported_lookup)
  with assms(1) have a: "a = str ''JWE-A256GCM''" and cache: "cache_ok rt provider"
    by (rule service_ok_lookup)+
  have compact: "list_all compact_char ([] :: jsstring)"
    by simp
  from envelope [OF compact] obtain e
    where e: "btoa (JSON_stringify_metadata (str ''JWE-A256GCM'') []) = Inr e" "e \<noteq> []"
    by blast
  let ?h' = "store_provider h this a provider"
  have a_ne: "a \<noteq> []"
    by (simp add: a str_def)
  have enc: "EncryptionService_encrypt rt env h this [] opts iv = (Inr e, ?h')"
    using encrypt_registered [OF assms(2) a_ne provider provider_encrypt_empty]
    by (simp add: e(1))
  have ok': "service_ok rt ?h' this"
    unfolding a using assms(1) cache by (rule service_ok_store)
  have sup': "isAlgorithmSupported ?h' this a"
    by (rule supported_store)
  have alg: "getAlgorithmFromEncrypted e = Some (JString a)"
    unfolding a using compact e(1) by (rule getAlgorithmFromEncrypted_envelope)
  have dec: "fst (EncryptionService_decrypt rt env2 ?h' this e dopts) = Inr []" for env2 dopts
    using decrypt_envelope [OF ok' [unfolded a] sup' [unfolded a] compact e(1), of env2 dopts]
    by (simp add: a)
  show ?thesis
    using enc e(2) ok' sup' alg dec by blast
qed

subsection \<open>The example configuration\<close>


lemma example_secret_list:
  "getSecretList example_env = Inr [str ''AAAAAAAAAAAAAAAAAAAAAAAAAAAAAAAAAAAAAAAAAAA='']"
  by (simp add: getSecretList_def example_env_def str_def trim_def is_js_whitespace_def)

lemma example_secret_key:
  "length (Buffer_from_base64 reference_runtime
     (str ''AAAAAAAAAAAAAAAAAAAAAAAAAAAAAAAAAAAAAAAAAAA='')) = 32"
  by (simp add: reference_runtime_def atob_def str_def is_ascii_whitespace_def b64_index_def)

lemma example_keys_ok:
  "all_keys_ok reference_runtime example_env" "active_key_ok reference_runtime example_env"
  by (simp_all add: all_keys_ok_def active_key_ok_def example_secret_list example_secret_key)

lemma example_service_ok: "service_ok reference_runtime example_heap example_service"
  by (simp add: service_ok_def this_providers_def example_heap_def example_service_def
      cache_ok_def Map_get_def)

lemma example_supported: "isAlgorithmSupported example_heap example_service (str ''JWE-A256GCM'')"
  by (simp add: isAlgorithmSupported_def this_providers_def example_heap_def
      example_service_def Map_has_def)

lemma getSecretList_nonempty: "getSecretList env \<noteq> Inr []"
  by (simp add: getSecretList_def Let_def)

lemma derive_keys_valid:
  "list_all (\<lambda>s. length (Buffer_from_base64 rt s) = 32) secrets \<Longrightarrow>
   derive_keys rt secrets = Inr (map (\<lambda>s. importKey (Buffer_from_base64 rt s)) secrets)"
  by (induction secrets) (simp_all add: derive_key_def)

lemma decrypt_encrypt_sealed:
  assumes "jose_contract rt" and "service_ok rt h this" and "algorithm opts = Some a"
    and "isAlgorithmSupported h this a" and "p \<noteq> []"
    and "getSecretList env = Inr (s # rest)" and "length (Buffer_from_base64 rt s) = 32"
  shows "decrypt_encrypt rt env env2 h this p opts iv dopts =
     (case derive_all rt env2 of
        Inl err \<Rightarrow> Inl (DecryptionError (str ''Decryption failed'') None (Some err))
      | Inr keys \<Rightarrow>
          if importKey (Buffer_from_base64 rt s) \<in> set keys
             \<and> (truthy_string (case dopts of None \<Rightarrow> None | Some d \<Rightarrow> options_context d)
                  \<longrightarrow> kid (protected_header (options_context opts))
                        = (case dopts of None \<Rightarrow> None | Some d \<Rightarrow> options_context d))
          then Inr (TextDecoder_decode (TextEncoder_encode p))
          else Inl (DecryptionError (str ''Decryption failed'') None
                      (Some (Error (str ''Decryption failed'')))))"
proof -
  from encrypt_then_decrypt [OF assms, of iv] obtain e h'
    where "EncryptionService_encrypt rt env h this p opts iv = (Inr e, h')"
      and "\<forall>env2 dopts.
          fst (EncryptionService_decrypt rt env2 h' this e dopts) =
            (case derive_all rt env2 of
               Inl err \<Rightarrow> Inl (DecryptionError (str ''Decryption failed'') None (Some err))
             | Inr keys \<Rightarrow>
                 if importKey (Buffer_from_base64 rt s) \<in> set keys
                    \<and> (truthy_string (case dopts of None \<Rightarrow> None | Some d \<Rightarrow> options_context d)
                         \<longrightarrow> kid (protected_header (options_context opts))
                               = (case dopts of None \<Rightarrow> None | Some d \<Rightarrow> options_context d))
                 then Inr (TextDecoder_decode (TextEncoder_encode p))
                 else Inl (DecryptionError (str ''Decryption failed'') None
                             (Some (Error (str ''Decryption failed'')))))"
    by blast
  then show ?thesis
    by (simp add: decrypt_encrypt_def)
qed

lemma decrypt_encrypt_empty:
  assumes "service_ok rt h this" and "algorithm opts = Some a"
    and "isAlgorithmSupported h this a"
  shows "decrypt_encrypt rt env env2 h this [] opts iv dopts = Inr []"
proof -
  from encrypt_empty_then_decrypt [OF assms, of env iv] obtain e h'
    where "EncryptionService_encrypt rt env h this [] opts iv = (Inr e, h')"
      and "\<forall>env2 dopts. fst (EncryptionService_decrypt rt env2 h' this e dopts) = Inr []"
    by blast
  then show ?thesis
    by (simp add: decrypt_encrypt_def)
qed

lemma active_key_okD:
  assumes "active_key_ok rt env"
  obtains s rest where "getSecretList env = Inr (s # rest)"
    and "length (Buffer_from_base64 rt s) = 32"
  using assms by (auto simp: active_key_ok_def split: sum.splits list.splits)

lemma all_keys_okD:
  assumes "all_keys_ok rt env"
  obtains s rest where "getSecretList env = Inr (s # rest)"
    and "length (Buffer_from_base64 rt s) = 32"
    and "derive_all rt env
           = Inr (map (\<lambda>s. importKey (Buffer_from_base64 rt s)) (s # rest))"
proof -
  from assms obtain secrets where secrets: "getSecretList env = Inr secrets"
    and valid: "list_all (\<lambda>s. length (Buffer_from_base64 rt s) = 32) secrets"
    by (auto simp: all_keys_ok_def split: sum.splits)
  from secrets getSecretList_nonempty [of env] obtain s rest where "secrets = s # rest"
    by (cases secrets) auto
  have "derive_all rt env = Inr (map (\<lambda>s. importKey (Buffer_from_base64 rt s)) secrets)"
    using secrets valid by (simp add: derive_all_def derive_keys_valid)
  with secrets valid \<open>secrets = s # rest\<close> show thesis
    by (intro that [of s rest]) simp_all
qed

subsection \<open>Round trip\<close>

text \<open>
  Claim C3. With an algorithm that is registered, no context and a secret list
  whose entries all decode to 32 bytes, decrypting what \<open>encrypt\<close> returned,
  with no options or with options that carry no context, gives back the
  plaintext \<open>p\<close>, the empty string included, when \<open>p\<close> is well-formed UTF-16
  (no lone surrogate) and does not begin with U+FEFF. For the other strings the
  result is \<open>TextDecoder_decode (TextEncoder_encode p)\<close>, which differs from \<open>p\<close>:
  the encoder writes U+FFFD for a lone surrogate and the decoder drops a leading
  U+FEFF.
\<close>

theorem round_trip:
  assumes "jose_contract rt" and "service_ok rt h this" and "algorithm opts = Some a"
    and "isAlgorithmSupported h this a" and "options_context opts = None"
    and "all_keys_ok rt env" and "well_formed p" and "\<not> next_is p 0xFEFF"
  shows "decrypt_encrypt rt env env h this p opts iv None = Inr p
       \<and> decrypt_encrypt rt env env h this p opts iv (Some \<lparr>options_context = None\<rparr>) = Inr p"
proof (cases "p = []")
  case True
  then show ?thesis
    using decrypt_encrypt_empty [OF assms(2,3,4)] by simp
next
  case False
  from assms(6) obtain s rest where s: "getSecretList env = Inr (s # rest)"
    "length (Buffer_from_base64 rt s) = 32"
    "derive_all rt env = Inr (map (\<lambda>s. importKey (Buffer_from_base64 rt s)) (s # rest))"
    by (rule all_keys_okD)
  show ?thesis
    using assms(7,8)
    by (simp add: decrypt_encrypt_sealed [OF assms(1,2,3,4) False s(1,2)] s(3) text_roundtrip)
qed

theorem round_trip_witness:
  "jose_contract reference_runtime
   \<and> service_ok reference_runtime example_heap example_service
   \<and> isAlgorithmSupported example_heap example_service (str ''JWE-A256GCM'')
   \<and> all_keys_ok reference_runtime example_env
   \<and> well_formed [0x48, 0x69, 0x20, 0xD83D, 0xDC4B, 0x4F60]
   \<and> \<not> next_is [0x48, 0x69, 0x20, 0xD83D, 0xDC4B, 0x4F60] 0xFEFF
   \<and> decrypt_encrypt reference_runtime example_env example_env example_heap example_service
        [0x48, 0x69, 0x20, 0xD83D, 0xDC4B, 0x4F60]
        \<lparr>options_context = None, algorithm = Some (str ''JWE-A256GCM'')\<rparr> [] None
       = Inr [0x48, 0x69, 0x20, 0xD83D, 0xDC4B, 0x4F60]"
proof -
  have wf: "well_formed [0x48, 0x69, 0x20, 0xD83D, 0xDC4B, 0x4F60]"
    by (simp add: is_surrogate_def is_high_surrogate_def is_low_surrogate_def)
  have bom: "\<not> next_is [0x48, 0x69, 0x20, 0xD83D, 0xDC4B, 0x4F60] 0xFEFF"
    by simp
  show ?thesis
    using round_trip [OF reference_runtime_contract example_service_ok _ example_supported _
        example_keys_ok(1) wf bom,
        of "\<lparr>options_context = None, algorithm = Some (str ''JWE-A256GCM'')\<rparr>" "[]"]
      reference_runtime_contract example_service_ok example_supported example_keys_ok(1) wf
    by simp
qed

theorem round_trip_counterexample:
  "decrypt_encrypt reference_runtime example_env example_env example_heap example_service
     [0xFEFF, 0x68, 0x69] \<lparr>options_context = None, algorithm = Some (str ''JWE-A256GCM'')\<rparr>
     [] None = Inr [0x68, 0x69]
   \<and> decrypt_encrypt reference_runtime example_env example_env example_heap example_service
     [0xD800] \<lparr>options_context = None, algorithm = Some (str ''JWE-A256GCM'')\<rparr>
     [] None = Inr [0xFFFD]"
proof -
  have keys: "derive_all reference_runtime example_env
      = Inr [importKey (Buffer_from_base64 reference_runtime
               (str ''AAAAAAAAAAAAAAAAAAAAAAAAAAAAAAAAAAAAAAAAAAA=''))]"
    by (simp add: derive_all_def example_secret_list derive_key_def example_secret_key)
  have 1: "TextDecoder_decode (TextEncoder_encode [0xFEFF, 0x68, 0x69]) = [0x68, 0x69]"
    by (simp add: TextDecoder_TextEncoder is_surrogate_def is_high_surrogate_def
        is_low_surrogate_def utf16_encode_scalar_def)
  have 2: "TextDecoder_decode (TextEncoder_encode [0xD800]) = [0xFFFD]"
    by (simp add: TextDecoder_TextEncoder is_surrogate_def utf16_encode_scalar_def)
  show ?thesis
    by (simp add: decrypt_encrypt_sealed [OF reference_runtime_contract example_service_ok _
          example_supported _ example_secret_list example_secret_key] keys 1 2)
qed

lemma derive_all_cases:
  obtains (failed) m where "derive_all rt env = Inl (Error m)"
  | (keys) keys where "derive_all rt env = Inr keys"
  using derive_all_error [of rt env] by (cases "derive_all rt env") auto

lemma mismatch_fails:
  assumes "jose_contract rt" and "service_ok rt h this" and "algorithm opts = Some a"
    and "isAlgorithmSupported h this a" and "p \<noteq> []" and "active_key_ok rt env"
    and "c2 \<noteq> []" and "kid (protected_header (options_context opts)) \<noteq> Some c2"
  shows "\<exists>cause. decrypt_encrypt rt env env2 h this p opts iv
                    (Some \<lparr>options_context = Some c2\<rparr>)
                  = Inl (DecryptionError (str ''Decryption failed'') None (Some cause))"
proof -
  from assms(6) obtain s rest where s: "getSecretList env = Inr (s # rest)"
    "length (Buffer_from_base64 rt s) = 32"
    by (rule active_key_okD)
  show ?thesis
    using assms(7,8)
    by (cases rule: derive_all_cases [of rt env2])
      (simp_all add: decrypt_encrypt_sealed [OF assms(1,2,3,4,5) s])
qed

subsection \<open>Context binding\<close>

text \<open>
  Claim C1. A non-empty plaintext encrypted under context \<open>c\<close> and decrypted
  with a non-empty context \<open>c2\<close> other than \<open>c\<close> fails with
  \<open>DecryptionError('Decryption failed')\<close>, whatever secret list is configured
  when decrypting. The empty plaintext is not encrypted at all (the provider
  returns the empty string for it, on both paths), so its envelope decrypts to
  the empty string under every context.
\<close>

theorem different_context_fails:
  assumes "jose_contract rt" and "service_ok rt h this" and "algorithm opts = Some a"
    and "isAlgorithmSupported h this a" and "options_context opts = Some c"
    and "p \<noteq> []" and "active_key_ok rt env" and "c2 \<noteq> []" and "c2 \<noteq> c"
  shows "\<exists>cause. decrypt_encrypt rt env env2 h this p opts iv
                    (Some \<lparr>options_context = Some c2\<rparr>)
                  = Inl (DecryptionError (str ''Decryption failed'') None (Some cause))"
proof -
  from assms(5,9) have "kid (protected_header (options_context opts)) \<noteq> Some c2"
    by (simp add: protected_header_def)
  with assms(1,2,3,4,6,7,8) show ?thesis
    by (rule mismatch_fails)
qed

theorem different_context_fails_witness:
  "jose_contract reference_runtime
   \<and> service_ok reference_runtime example_heap example_service
   \<and> isAlgorithmSupported example_heap example_service (str ''JWE-A256GCM'')
   \<and> active_key_ok reference_runtime example_env
   \<and> (\<exists>cause. decrypt_encrypt reference_runtime example_env example_env example_heap
         example_service (str ''sensitive data'')
         \<lparr>options_context = Some (str ''context1''), algorithm = Some (str ''JWE-A256GCM'')\<rparr> []
         (Some \<lparr>options_context = Some (str ''context2'')\<rparr>)
       = Inl (DecryptionError (str ''Decryption failed'') None (Some cause)))"
  using different_context_fails [OF reference_runtime_contract example_service_ok _
      example_supported _ _ example_keys_ok(2),
      of "\<lparr>options_context = Some (str ''context1''), algorithm = Some (str ''JWE-A256GCM'')\<rparr>"
        "str ''context1''" "str ''sensitive data''" "str ''context2''" example_env "[]"]
    reference_runtime_contract example_service_ok example_supported example_keys_ok(2)
  by (simp add: str_def)

theorem different_context_counterexample:
  "decrypt_encrypt reference_runtime example_env example_env example_heap example_service []
     \<lparr>options_context = Some (str ''context1''), algorithm = Some (str ''JWE-A256GCM'')\<rparr> []
     (Some \<lparr>options_context = Some (str ''context2'')\<rparr>)
   = Inr []"
  by (simp add: decrypt_encrypt_empty [OF example_service_ok _ example_supported])

text \<open>
  Decrypting with no context: the provider compares the \<open>kid\<close> of the header
  only when the caller's context is non-empty, so the envelope decrypts
  whatever context it was encrypted under.
\<close>

lemma decrypt_without_context:
  assumes "jose_contract rt" and "service_ok rt h this" and "algorithm opts = Some a"
    and "isAlgorithmSupported h this a" and "p \<noteq> []" and "all_keys_ok rt env"
  shows "decrypt_encrypt rt env env h this p opts iv None
           = Inr (TextDecoder_decode (TextEncoder_encode p))"
proof -
  from assms(6) obtain s rest where s: "getSecretList env = Inr (s # rest)"
    "length (Buffer_from_base64 rt s) = 32"
    "derive_all rt env = Inr (map (\<lambda>s. importKey (Buffer_from_base64 rt s)) (s # rest))"
    by (rule all_keys_okD)
  show ?thesis
    by (simp add: decrypt_encrypt_sealed [OF assms(1,2,3,4,5) s(1,2)] s(3))
qed

text \<open>
  Claim C8. A non-empty plaintext encrypted with no context and decrypted with
  a non-empty context \<open>c2\<close> fails with \<open>DecryptionError('Decryption failed')\<close>: the
  protected header has no \<open>kid\<close>, so the check fails under every key, for every
  secret list \<open>env2\<close> configured when decrypting.
\<close>

theorem context_on_unbound_fails:
  assumes "jose_contract rt" and "service_ok rt h this" and "algorithm opts = Some a"
    and "isAlgorithmSupported h this a" and "options_context opts = None"
    and "p \<noteq> []" and "active_key_ok rt env" and "c2 \<noteq> []"
  shows "\<exists>cause. decrypt_encrypt rt env env2 h this p opts iv
                    (Some \<lparr>options_context = Some c2\<rparr>)
                  = Inl (DecryptionError (str ''Decryption failed'') None (Some cause))"
proof -
  from assms(5) have "kid (protected_header (options_context opts)) \<noteq> Some c2"
    by (simp add: protected_header_def)
  with assms(1,2,3,4,6,7,8) show ?thesis
    by (rule mismatch_fails)
qed

theorem context_on_unbound_fails_witness:
  "jose_contract reference_runtime
   \<and> service_ok reference_runtime example_heap example_service
   \<and> isAlgorithmSupported example_heap example_service (str ''JWE-A256GCM'')
   \<and> active_key_ok reference_runtime example_env
   \<and> (\<exists>cause. decrypt_encrypt reference_runtime example_env \<lparr>SECRET = str ''k1,k2''\<rparr>
         example_heap example_service (str ''data'')
         \<lparr>options_context = None, algorithm = Some (str ''JWE-A256GCM'')\<rparr> []
         (Some \<lparr>options_context = Some (str ''user_123'')\<rparr>)
       = Inl (DecryptionError (str ''Decryption failed'') None (Some cause)))"
  using context_on_unbound_fails [OF reference_runtime_contract example_service_ok _
      example_supported _ _ example_keys_ok(2),
      of "\<lparr>options_context = None, algorithm = Some (str ''JWE-A256GCM'')\<rparr>"
        "str ''data''" "str ''user_123''" "\<lparr>SECRET = str ''k1,k2''\<rparr>" "[]"]
    reference_runtime_contract example_service_ok example_supported example_keys_ok(2)
  by (simp add: str_def)

lemma getAllCryptoKeys_result:
  "cache_ok rt provider \<Longrightarrow> fst (getAllCryptoKeys rt env provider) = derive_all rt env"
  using getCryptoKeys_result [of rt provider]
  by (simp add: getAllCryptoKeys_def derive_all_def split: sum.splits)

subsection \<open>Key rotation\<close>

text \<open>
  Claim C4. Let the secret list be \<open>[A]\<close>, then \<open>[B, A]\<close>, then \<open>[B]\<close>, with \<open>A\<close>
  and \<open>B\<close> decoding to different 32-byte keys, and let the plaintext be
  non-empty. What was encrypted under \<open>[A]\<close> decrypts under \<open>[B, A]\<close>;
  \<open>getAllCryptoKeys\<close> under \<open>[B, A]\<close> gives the key of \<open>B\<close> and then the key of
  \<open>A\<close>; what is encrypted under \<open>[B, A]\<close> decrypts under \<open>[B, A]\<close> and under
  \<open>[B]\<close> alone but not under \<open>[A]\<close>, so it was sealed with \<open>B\<close>; and what was
  encrypted under \<open>[A]\<close> fails under \<open>[B]\<close> with
  \<open>DecryptionError('Decryption failed')\<close>. The context given to \<open>decrypt\<close> is the
  one given to \<open>encrypt\<close>; a successful result is the text round trip of \<open>p\<close>,
  which is \<open>p\<close> for well-formed text without a leading U+FEFF.

  The keys are tried in the order of \<open>getAllCryptoKeys\<close>, the first entry first:
  with any primitives \<open>rt2\<close>, the provider's \<open>decrypt\<close> returns what the first
  key of the list that opens the object gives, and fails with
  \<open>Error('Decryption failed')\<close> when no key does.

  The empty plaintext is not sealed at all, and its envelope decrypts to the
  empty string under every secret list, \<open>[B]\<close> included.
\<close>

theorem key_rotation:
  assumes "jose_contract rt" and "service_ok rt h this" and "algorithm opts = Some a"
    and "isAlgorithmSupported h this a" and "p \<noteq> []"
    and "getSecretList envA = Inr [A]" and "getSecretList envBA = Inr [B, A]"
    and "getSecretList envB = Inr [B]"
    and "length (Buffer_from_base64 rt A) = 32" and "length (Buffer_from_base64 rt B) = 32"
    and "Buffer_from_base64 rt A \<noteq> Buffer_from_base64 rt B"
    and "dopts = Some \<lparr>options_context = options_context opts\<rparr>"
  shows "decrypt_encrypt rt envA envBA h this p opts iv dopts
           = Inr (TextDecoder_decode (TextEncoder_encode p))
     \<and> (\<forall>provider. cache_ok rt provider \<longrightarrow>
           fst (getAllCryptoKeys rt envBA provider)
             = Inr [importKey (Buffer_from_base64 rt B), importKey (Buffer_from_base64 rt A)])
     \<and> decrypt_encrypt rt envBA envBA h this p opts iv' dopts
           = Inr (TextDecoder_decode (TextEncoder_encode p))
     \<and> decrypt_encrypt rt envBA envB h this p opts iv' dopts
           = Inr (TextDecoder_decode (TextEncoder_encode p))
     \<and> decrypt_encrypt rt envBA envA h this p opts iv' dopts
           = Inl (DecryptionError (str ''Decryption failed'') None
                    (Some (Error (str ''Decryption failed''))))
     \<and> decrypt_encrypt rt envA envB h this p opts iv dopts
           = Inl (DecryptionError (str ''Decryption failed'') None
                    (Some (Error (str ''Decryption failed''))))
     \<and> (well_formed p \<and> \<not> next_is p 0xFEFF \<longrightarrow>
           TextDecoder_decode (TextEncoder_encode p) = p)
     \<and> (truthy v \<and> fst (getAllCryptoKeys rt2 env2 provider2) = Inr keys \<longrightarrow>
           fst (JWEA256GCMProvider_decrypt rt2 env2 provider2 (Some v) ctx)
             = (case List.map_filter (key_opens rt2 v ctx) keys of
                  [] \<Rightarrow> Inl (Error (str ''Decryption failed''))
                | r # rs \<Rightarrow> Inr r))"
proof -
  have keys: "derive_all rt envA = Inr [importKey (Buffer_from_base64 rt A)]"
    "derive_all rt envBA
       = Inr [importKey (Buffer_from_base64 rt B), importKey (Buffer_from_base64 rt A)]"
    "derive_all rt envB = Inr [importKey (Buffer_from_base64 rt B)]"
    using assms(6-10) by (simp_all add: derive_all_def derive_key_def)
  have distinct: "importKey (Buffer_from_base64 rt A) \<noteq> importKey (Buffer_from_base64 rt B)"
    using assms(11) by (simp add: importKey_def)
  have ctx: "truthy_string (options_context opts) \<longrightarrow>
        kid (protected_header (options_context opts)) = options_context opts"
    by (simp add: protected_header_def)
  note old = decrypt_encrypt_sealed [OF assms(1-5) assms(6) assms(9)]
  note new = decrypt_encrypt_sealed [OF assms(1-5) assms(7) assms(10)]
  have 1: "decrypt_encrypt rt envA envBA h this p opts iv dopts
           = Inr (TextDecoder_decode (TextEncoder_encode p))"
    using ctx by (simp add: old keys assms(12))
  have 2: "\<forall>provider. cache_ok rt provider \<longrightarrow>
           fst (getAllCryptoKeys rt envBA provider)
             = Inr [importKey (Buffer_from_base64 rt B), importKey (Buffer_from_base64 rt A)]"
    by (simp add: getAllCryptoKeys_result keys)
  have 3: "decrypt_encrypt rt envBA envBA h this p opts iv' dopts
           = Inr (TextDecoder_decode (TextEncoder_encode p))"
    using ctx by (simp add: new keys assms(12))
  have 4: "decrypt_encrypt rt envBA envB h this p opts iv' dopts
           = Inr (TextDecoder_decode (TextEncoder_encode p))"
    using ctx by (simp add: new keys assms(12))
  have 5: "decrypt_encrypt rt envBA envA h this p opts iv' dopts
           = Inl (DecryptionError (str ''Decryption failed'') None
                    (Some (Error (str ''Decryption failed''))))"
    using distinct by (simp add: new keys)
  have 6: "decrypt_encrypt rt envA envB h this p opts iv dopts
           = Inl (DecryptionError (str ''Decryption failed'') None
                    (Some (Error (str ''Decryption failed''))))"
    using distinct by (simp add: old keys)
  have 7: "well_formed p \<and> \<not> next_is p 0xFEFF \<longrightarrow>
           TextDecoder_decode (TextEncoder_encode p) = p"
    by (simp add: text_roundtrip)
  have 8: "truthy v \<and> fst (getAllCryptoKeys rt2 env2 provider2) = Inr keys \<longrightarrow>
           fst (JWEA256GCMProvider_decrypt rt2 env2 provider2 (Some v) ctx)
             = (case List.map_filter (key_opens rt2 v ctx) keys of
                  [] \<Rightarrow> Inl (Error (str ''Decryption failed''))
                | r # rs \<Rightarrow> Inr r)"
    by (simp add: provider_decrypt_first)
  from 1 2 3 4 5 6 7 8 show ?thesis
    by (intro conjI)
qed

lemma example_rotation_envs:
  "getSecretList \<lparr>SECRET = str ''AQEBAQEBAQEBAQEBAQEBAQEBAQEBAQEBAQEBAQEBAQE=,AAAAAAAAAAAAAAAAAAAAAAAAAAAAAAAAAAAAAAAAAAA=''\<rparr>
     = Inr [str ''AQEBAQEBAQEBAQEBAQEBAQEBAQEBAQEBAQEBAQEBAQE='',
            str ''AAAAAAAAAAAAAAAAAAAAAAAAAAAAAAAAAAAAAAAAAAA='']"
  "getSecretList \<lparr>SECRET = str ''AQEBAQEBAQEBAQEBAQEBAQEBAQEBAQEBAQEBAQEBAQE=''\<rparr>
     = Inr [str ''AQEBAQEBAQEBAQEBAQEBAQEBAQEBAQEBAQEBAQEBAQE='']"
  by (simp_all add: getSecretList_def str_def trim_def is_js_whitespace_def)

lemma example_secret_bytes:
  "set (Buffer_from_base64 reference_runtime
          (str ''AAAAAAAAAAAAAAAAAAAAAAAAAAAAAAAAAAAAAAAAAAA='')) = {0}"
  "set (Buffer_from_base64 reference_runtime
          (str ''AQEBAQEBAQEBAQEBAQEBAQEBAQEBAQEBAQEBAQEBAQE='')) = {1}"
  "length (Buffer_from_base64 reference_runtime
          (str ''AQEBAQEBAQEBAQEBAQEBAQEBAQEBAQEBAQEBAQEBAQE='')) = 32"
  by (simp_all add: reference_runtime_def atob_def str_def is_ascii_whitespace_def b64_index_def)

theorem key_rotation_witness:
  "jose_contract reference_runtime
   \<and> service_ok reference_runtime example_heap example_service
   \<and> isAlgorithmSupported example_heap example_service (str ''JWE-A256GCM'')
   \<and> decrypt_encrypt reference_runtime example_env
        \<lparr>SECRET = str ''AQEBAQEBAQEBAQEBAQEBAQEBAQEBAQEBAQEBAQEBAQE=,AAAAAAAAAAAAAAAAAAAAAAAAAAAAAAAAAAAAAAAAAAA=''\<rparr>
        example_heap example_service (str ''data'')
        \<lparr>options_context = None, algorithm = Some (str ''JWE-A256GCM'')\<rparr> []
        (Some \<lparr>options_context = None\<rparr>)
       = Inr (str ''data'')
   \<and> decrypt_encrypt reference_runtime example_env
        \<lparr>SECRET = str ''AQEBAQEBAQEBAQEBAQEBAQEBAQEBAQEBAQEBAQEBAQE=''\<rparr>
        example_heap example_service (str ''data'')
        \<lparr>options_context = None, algorithm = Some (str ''JWE-A256GCM'')\<rparr> []
        (Some \<lparr>options_context = None\<rparr>)
       = Inl (DecryptionError (str ''Decryption failed'') None
                (Some (Error (str ''Decryption failed''))))
   \<and> fst (JWEA256GCMProvider_decrypt lenient_runtime
        \<lparr>SECRET = str ''AQEBAQEBAQEBAQEBAQEBAQEBAQEBAQEBAQEBAQEBAQE=,AAAAAAAAAAAAAAAAAAAAAAAAAAAAAAAAAAAAAAAAAAA=''\<rparr>
        (JWEA256GCMProvider []) (Some (JString (str ''x''))) None)
       = Inr [1]"
proof -
  have same: "TextDecoder_decode (TextEncoder_encode (str ''data'')) = str ''data''"
    by (simp add: text_roundtrip str_def is_surrogate_def is_high_surrogate_def
        is_low_surrogate_def)
  have ne: "str ''data'' \<noteq> []"
    by (simp add: str_def)
  have differ: "Buffer_from_base64 reference_runtime
        (str ''AAAAAAAAAAAAAAAAAAAAAAAAAAAAAAAAAAAAAAAAAAA='')
      \<noteq> Buffer_from_base64 reference_runtime
        (str ''AQEBAQEBAQEBAQEBAQEBAQEBAQEBAQEBAQEBAQEBAQE='')"
    using example_secret_bytes(1,2) by auto
  have len: "length (Buffer_from_base64 reference_runtime
        (str ''AQEBAQEBAQEBAQEBAQEBAQEBAQEBAQEBAQEBAQEBAQE='')) = 32"
    by (simp add: example_secret_bytes)
  have first: "take (Suc 0) (Buffer_from_base64 reference_runtime
        (str ''AQEBAQEBAQEBAQEBAQEBAQEBAQEBAQEBAQEBAQEBAQE='')) = [1]"
    by (simp add: reference_runtime_def atob_def str_def is_ascii_whitespace_def b64_index_def)
  have decode: "TextDecoder_decode [1] = [1]"
    by (simp add: TextDecoder_decode_def utf16_encode_scalar_def)
  have opens: "key_opens lenient_runtime (JString (str ''x'')) None
        (importKey (Buffer_from_base64 reference_runtime
           (str ''AQEBAQEBAQEBAQEBAQEBAQEBAQEBAQEBAQEBAQEBAQE=''))) = Some [1]"
    by (simp add: key_opens_def lenient_runtime_def importKey_def first decode)
  have keys: "fst (getAllCryptoKeys lenient_runtime
        \<lparr>SECRET = str ''AQEBAQEBAQEBAQEBAQEBAQEBAQEBAQEBAQEBAQEBAQE=,AAAAAAAAAAAAAAAAAAAAAAAAAAAAAAAAAAAAAAAAAAA=''\<rparr>
        (JWEA256GCMProvider []))
      = Inr [importKey (Buffer_from_base64 reference_runtime
               (str ''AQEBAQEBAQEBAQEBAQEBAQEBAQEBAQEBAQEBAQEBAQE='')),
             importKey (Buffer_from_base64 reference_runtime
               (str ''AAAAAAAAAAAAAAAAAAAAAAAAAAAAAAAAAAAAAAAAAAA=''))]"
    using len example_secret_key
    by (simp add: getAllCryptoKeys_result cache_ok_def Map_get_def derive_all_def
        example_rotation_envs derive_key_def lenient_runtime_def)
  have x: "truthy (JString (str ''x''))"
    by (simp add: str_def)
  note rotation = key_rotation [OF reference_runtime_contract example_service_ok _
      example_supported ne example_secret_list example_rotation_envs example_secret_key len
      differ,
      of "\<lparr>options_context = None, algorithm = Some (str ''JWE-A256GCM'')\<rparr>"
        "Some \<lparr>options_context = None\<rparr>" "[]" "[]" "JString (str ''x'')"
        lenient_runtime
        "\<lparr>SECRET = str ''AQEBAQEBAQEBAQEBAQEBAQEBAQEBAQEBAQEBAQEBAQE=,AAAAAAAAAAAAAAAAAAAAAAAAAAAAAAAAAAAAAAAAAAA=''\<rparr>"
        "JWEA256GCMProvider []"
        "[importKey (Buffer_from_base64 reference_runtime
             (str ''AQEBAQEBAQEBAQEBAQEBAQEBAQEBAQEBAQEBAQEBAQE='')),
          importKey (Buffer_from_base64 reference_runtime
             (str ''AAAAAAAAAAAAAAAAAAAAAAAAAAAAAAAAAAAAAAAAAAA=''))]" None]
  have order: "fst (JWEA256GCMProvider_decrypt lenient_runtime
        \<lparr>SECRET = str ''AQEBAQEBAQEBAQEBAQEBAQEBAQEBAQEBAQEBAQEBAQE=,AAAAAAAAAAAAAAAAAAAAAAAAAAAAAAAAAAAAAAAAAAA=''\<rparr>
        (JWEA256GCMProvider []) (Some (JString (str ''x''))) None)
       = Inr [1]"
    using rotation keys x by (simp add: opens List.map_filter_simps)
  show ?thesis
    using rotation reference_runtime_contract example_service_ok example_supported order
    by (simp add: same)
qed

theorem key_rotation_counterexample:
  "decrypt_encrypt reference_runtime example_env
     \<lparr>SECRET = str ''AQEBAQEBAQEBAQEBAQEBAQEBAQEBAQEBAQEBAQEBAQE=''\<rparr>
     example_heap example_service []
     \<lparr>options_context = None, algorithm = Some (str ''JWE-A256GCM'')\<rparr> []
     (Some \<lparr>options_context = None\<rparr>)
   = Inr []"
  by (simp add: decrypt_encrypt_empty [OF example_service_ok _ example_supported])


subsection \<open>The algorithm named by an envelope\<close>

text \<open>
  Claim C5. For every plaintext and registered algorithm \<open>a\<close>, \<open>encrypt\<close> returns
  an envelope from which \<open>getAlgorithmFromEncrypted\<close> reads \<open>a\<close>. On a string on
  which \<open>atob\<close> throws, or whose decoding \<open>JSON.parse\<close> rejects, or that decodes to
  a value without a member \<open>algorithm\<close> (a value that is not an object, or an
  object that has no such member), \<open>getAlgorithmFromEncrypted\<close> returns
  \<open>undefined\<close>; it has no failing result at all. An object that has the member
  is not looked at any further: \<^verbatim>\<open>{"algorithm":5}\<close> gives the number 5.
\<close>

theorem envelope_algorithm:
  "(jose_contract rt \<and> service_ok rt h this \<and> algorithm opts = Some a
      \<and> isAlgorithmSupported h this a \<and> (p = [] \<or> active_key_ok rt env) \<longrightarrow>
      (\<exists>e h'. EncryptionService_encrypt rt env h this p opts iv = (Inr e, h')
         \<and> getAlgorithmFromEncrypted e = Some (JString a)))
   \<and> ((\<exists>err. atob s = Inl err) \<longrightarrow> getAlgorithmFromEncrypted s = None)
   \<and> ((\<exists>t err. atob s = Inr t \<and> JSON_parse t = Inl err) \<longrightarrow> getAlgorithmFromEncrypted s = None)
   \<and> ((\<exists>t v. atob s = Inr t \<and> JSON_parse t = Inr v \<and> (\<forall>ms. v \<noteq> JObject ms)) \<longrightarrow>
          getAlgorithmFromEncrypted s = None)
   \<and> ((\<exists>t ms. atob s = Inr t \<and> JSON_parse t = Inr (JObject ms)
               \<and> map_of ms (str ''algorithm'') = None) \<longrightarrow>
          getAlgorithmFromEncrypted s = None)"
proof (intro conjI impI)
  assume asm: "jose_contract rt \<and> service_ok rt h this \<and> algorithm opts = Some a
      \<and> isAlgorithmSupported h this a \<and> (p = [] \<or> active_key_ok rt env)"
  show "\<exists>e h'. EncryptionService_encrypt rt env h this p opts iv = (Inr e, h')
         \<and> getAlgorithmFromEncrypted e = Some (JString a)"
  proof (cases "p = []")
    case True
    with asm encrypt_empty_then_decrypt [of rt h this opts a env iv] show ?thesis
      by blast
  next
    case False
    with asm have "active_key_ok rt env" by simp
    then obtain s rest where "getSecretList env = Inr (s # rest)"
      "length (Buffer_from_base64 rt s) = 32"
      by (rule active_key_okD)
    with asm False encrypt_then_decrypt [of rt h this opts a p env s rest iv] show ?thesis
      by blast
  qed
next
  assume "\<exists>err. atob s = Inl err"
  then show "getAlgorithmFromEncrypted s = None"
    by (auto simp: getAlgorithmFromEncrypted_def)
next
  assume "\<exists>t err. atob s = Inr t \<and> JSON_parse t = Inl err"
  then show "getAlgorithmFromEncrypted s = None"
    by (auto simp: getAlgorithmFromEncrypted_def)
next
  assume "\<exists>t v. atob s = Inr t \<and> JSON_parse t = Inr v \<and> (\<forall>ms. v \<noteq> JObject ms)"
  then obtain t v where "atob s = Inr t" "JSON_parse t = Inr v" "\<forall>ms. v \<noteq> JObject ms"
    by blast
  then show "getAlgorithmFromEncrypted s = None"
    by (cases v) (simp_all add: getAlgorithmFromEncrypted_def)
next
  assume "\<exists>t ms. atob s = Inr t \<and> JSON_parse t = Inr (JObject ms)
               \<and> map_of ms (str ''algorithm'') = None"
  then show "getAlgorithmFromEncrypted s = None"
    by (auto simp: getAlgorithmFromEncrypted_def map_of_eq_None_iff)
qed

theorem envelope_algorithm_witness:
  "jose_contract reference_runtime
   \<and> service_ok reference_runtime example_heap example_service
   \<and> isAlgorithmSupported example_heap example_service (str ''JWE-A256GCM'')
   \<and> active_key_ok reference_runtime example_env
   \<and> (\<exists>e h'. EncryptionService_encrypt reference_runtime example_env example_heap
                 example_service (str ''data'')
                 \<lparr>options_context = None, algorithm = Some (str ''JWE-A256GCM'')\<rparr> []
               = (Inr e, h')
          \<and> getAlgorithmFromEncrypted e = Some (JString (str ''JWE-A256GCM'')))
   \<and> atob (str ''invalid_base64_data'') = Inl InvalidCharacterError
   \<and> getAlgorithmFromEncrypted (str ''invalid_base64_data'') = None
   \<and> atob (str ''e30='') = Inr [0x7B, 0x7D]
   \<and> JSON_parse [0x7B, 0x7D] = Inr (JObject [])
   \<and> getAlgorithmFromEncrypted (str ''e30='') = None"
proof -
  have bad: "atob (str ''invalid_base64_data'') = Inl InvalidCharacterError"
    by code_simp
  have empty: "atob (str ''e30='') = Inr [0x7B, 0x7D]" "JSON_parse [0x7B, 0x7D] = Inr (JObject [])"
    by code_simp+
  show ?thesis
    using envelope_algorithm [of reference_runtime example_heap example_service
        "\<lparr>options_context = None, algorithm = Some (str ''JWE-A256GCM'')\<rparr>"
        "str ''JWE-A256GCM''" "str ''data''" example_env "[]" "str ''invalid_base64_data''"]
      envelope_algorithm [where s = "str ''e30=''"]
      reference_runtime_contract example_service_ok example_supported example_keys_ok(2) bad
      empty
    by simp
qed

theorem envelope_algorithm_counterexample:
  "getAlgorithmFromEncrypted (str ''eyJhbGdvcml0aG0iOjV9'') = Some (JNumber (Finite 5))
   \<and> getAlgorithmFromEncrypted (str ''eyJhbGdvcml0aG0iOiJYIn0='') = Some (JString (str ''X''))"
  by code_simp

subsection \<open>Failures of decrypt\<close>

lemma atob_error: "atob e = Inl err \<Longrightarrow> err = InvalidCharacterError"
  by (auto simp: atob_def Let_def split: if_splits)

lemma JSON_parse_error: "JSON_parse t = Inl err \<Longrightarrow> err = SyntaxError"
  by (auto simp: JSON_parse_def split: option.splits if_splits)

lemma decrypt_outcomes:
  "(\<exists>s. fst (EncryptionService_decrypt rt env h this e dopts) = Inr s)
   \<or> (\<exists>m a c. fst (EncryptionService_decrypt rt env h this e dopts) = Inl (DecryptionError m a c))
   \<or> (\<exists>r av. fst (EncryptionService_decrypt rt env h this e dopts)
                 = Inl (UnsupportedAlgorithmError r av))"
proof (cases "e = []")
  case True
  then show ?thesis
    by (simp add: EncryptionService_decrypt_def)
next
  case False
  show ?thesis
  proof (cases "fst (decrypt_try rt env h this e dopts)")
    case (Inl x)
    then show ?thesis
      by (cases x) (simp_all add: decrypt_result [OF False])
  next
    case (Inr s)
    then show ?thesis
      by (simp add: decrypt_result [OF False])
  qed
qed

lemma decrypt_unregistered:
  assumes "e \<noteq> []" and "atob e = Inr t" and "JSON_parse t = Inr v"
    and "get_property v (str ''algorithm'') = Inr ma"
    and "\<forall>s. ma = Some (JString s) \<longrightarrow> \<not> isAlgorithmSupported h this s"
  shows "EncryptionService_decrypt rt env h this e dopts
     = (Inl (if (case ma of None \<Rightarrow> True | Some x \<Rightarrow> ToString_completes x)
             then UnsupportedAlgorithmError ma (getSupportedAlgorithms h this)
             else DecryptionError (str ''Decryption failed'') None (Some TypeError)), h)"
proof -
  have "Map_get_value (this_providers h this) ma = None"
  proof (cases ma)
    case None
    then show ?thesis by simp
  next
    case (Some x)
    with assms(5) show ?thesis
      by (cases x) (auto simp: isAlgorithmSupported_def Map_has_def Map_get_def
          split: option.splits)
  qed
  with assms(1-4) show ?thesis
    by (simp add: EncryptionService_decrypt_def decrypt_try_def
        throw_UnsupportedAlgorithmError_def split: option.splits)
qed

text \<open>
  An object with a member \<^verbatim>\<open>toString\<close> as the algorithm,
  \<^verbatim>\<open>{"algorithm":{"toString":0}}\<close>: building the message of the
  \<open>UnsupportedAlgorithmError\<close> throws.
\<close>

lemma decrypt_unconvertible_algorithm:
  "fst (EncryptionService_decrypt reference_runtime example_env example_heap example_service
          (str ''eyJhbGdvcml0aG0iOnsidG9TdHJpbmciOjB9fQ=='') None)
     = Inl (DecryptionError (str ''Decryption failed'') None (Some TypeError))"
  by code_simp

text \<open>
  Claim C6. For a non-empty input on which \<open>atob\<close> throws, or whose decoding
  \<open>JSON.parse\<close> rejects, or that decodes to \<^verbatim>\<open>null\<close>, \<open>decrypt\<close> fails with
  \<open>DecryptionError('Decryption failed')\<close> carrying the error thrown as its cause.
  When the input decodes to another value whose member \<open>algorithm\<close> is missing
  or is not a registered identifier, \<open>decrypt\<close> fails with an
  \<open>UnsupportedAlgorithmError\<close> that carries that member and the registered
  identifiers, unless the member cannot be converted to a string for the
  message: then the \<^verbatim>\<open>TypeError\<close> is the cause of a \<open>DecryptionError\<close>.
  For every input, \<open>decrypt\<close> returns a string or fails with a \<open>DecryptionError\<close>
  or an \<open>UnsupportedAlgorithmError\<close>, nothing else. Whatever is thrown inside
  the \<open>try\<close> block goes through \<open>decrypt_catch\<close>, which leaves a
  \<open>DecryptionError\<close> and an \<open>UnsupportedAlgorithmError\<close> as they are and wraps
  any other error \<open>x\<close> as \<open>DecryptionError('Decryption failed')\<close> with cause \<open>x\<close>.
\<close>

theorem decrypt_failures:
  "(e \<noteq> [] \<and> atob e = Inl err \<longrightarrow>
      EncryptionService_decrypt rt env h this e dopts
        = (Inl (DecryptionError (str ''Decryption failed'') None (Some err)), h))
   \<and> (e \<noteq> [] \<and> atob e = Inr t \<and> JSON_parse t = Inl err \<longrightarrow>
      EncryptionService_decrypt rt env h this e dopts
        = (Inl (DecryptionError (str ''Decryption failed'') None (Some err)), h))
   \<and> (e \<noteq> [] \<and> atob e = Inr t \<and> JSON_parse t = Inr JNull \<longrightarrow>
      EncryptionService_decrypt rt env h this e dopts
        = (Inl (DecryptionError (str ''Decryption failed'') None (Some TypeError)), h))
   \<and> (e \<noteq> [] \<and> atob e = Inr t \<and> JSON_parse t = Inr v
        \<and> get_property v (str ''algorithm'') = Inr ma
        \<and> (\<forall>s. ma = Some (JString s) \<longrightarrow> \<not> isAlgorithmSupported h this s) \<longrightarrow>
      EncryptionService_decrypt rt env h this e dopts
        = (Inl (if (case ma of None \<Rightarrow> True | Some x \<Rightarrow> ToString_completes x)
                then UnsupportedAlgorithmError ma (getSupportedAlgorithms h this)
                else DecryptionError (str ''Decryption failed'') None (Some TypeError)), h))
   \<and> ((\<exists>s. fst (EncryptionService_decrypt rt env h this e dopts) = Inr s)
      \<or> (\<exists>m a c. fst (EncryptionService_decrypt rt env h this e dopts)
                    = Inl (DecryptionError m a c))
      \<or> (\<exists>r av. fst (EncryptionService_decrypt rt env h this e dopts)
                   = Inl (UnsupportedAlgorithmError r av)))
   \<and> (e \<noteq> [] \<and> fst (decrypt_try rt env h this e dopts) = Inl x \<longrightarrow>
      fst (EncryptionService_decrypt rt env h this e dopts) = Inl (decrypt_catch x))
   \<and> decrypt_catch (DecryptionError m a c) = DecryptionError m a c
   \<and> decrypt_catch (UnsupportedAlgorithmError r av) = UnsupportedAlgorithmError r av
   \<and> ((\<forall>m a c. x \<noteq> DecryptionError m a c) \<and> (\<forall>r av. x \<noteq> UnsupportedAlgorithmError r av) \<longrightarrow>
      decrypt_catch x = DecryptionError (str ''Decryption failed'') None (Some x))"
proof (intro conjI impI)
  assume "e \<noteq> [] \<and> atob e = Inl err"
  moreover from this have "err = InvalidCharacterError"
    by (auto dest: atob_error)
  ultimately show "EncryptionService_decrypt rt env h this e dopts
        = (Inl (DecryptionError (str ''Decryption failed'') None (Some err)), h)"
    by (simp add: EncryptionService_decrypt_def decrypt_try_def)
next
  assume "e \<noteq> [] \<and> atob e = Inr t \<and> JSON_parse t = Inl err"
  moreover from this have "err = SyntaxError"
    by (auto dest: JSON_parse_error)
  ultimately show "EncryptionService_decrypt rt env h this e dopts
        = (Inl (DecryptionError (str ''Decryption failed'') None (Some err)), h)"
    by (simp add: EncryptionService_decrypt_def decrypt_try_def)
next
  assume "e \<noteq> [] \<and> atob e = Inr t \<and> JSON_parse t = Inr JNull"
  then show "EncryptionService_decrypt rt env h this e dopts
        = (Inl (DecryptionError (str ''Decryption failed'') None (Some TypeError)), h)"
    by (simp add: EncryptionService_decrypt_def decrypt_try_def)
next
  assume "e \<noteq> [] \<and> atob e = Inr t \<and> JSON_parse t = Inr v
        \<and> get_property v (str ''algorithm'') = Inr ma
        \<and> (\<forall>s. ma = Some (JString s) \<longrightarrow> \<not> isAlgorithmSupported h this s)"
  then show "EncryptionService_decrypt rt env h this e dopts
        = (Inl (if (case ma of None \<Rightarrow> True | Some x \<Rightarrow> ToString_completes x)
                then UnsupportedAlgorithmError ma (getSupportedAlgorithms h this)
                else DecryptionError (str ''Decryption failed'') None (Some TypeError)), h)"
    using decrypt_unregistered [of e t v ma h this rt env dopts] by simp
next
  show "(\<exists>s. fst (EncryptionService_decrypt rt env h this e dopts) = Inr s)
      \<or> (\<exists>m a c. fst (EncryptionService_decrypt rt env h this e dopts)
                    = Inl (DecryptionError m a c))
      \<or> (\<exists>r av. fst (EncryptionService_decrypt rt env h this e dopts)
                   = Inl (UnsupportedAlgorithmError r av))"
    by (rule decrypt_outcomes)
next
  assume "e \<noteq> [] \<and> fst (decrypt_try rt env h this e dopts) = Inl x"
  then show "fst (EncryptionService_decrypt rt env h this e dopts) = Inl (decrypt_catch x)"
    by (simp add: decrypt_result)
next
  show "decrypt_catch (DecryptionError m a c) = DecryptionError m a c"
    by simp
next
  show "decrypt_catch (UnsupportedAlgorithmError r av) = UnsupportedAlgorithmError r av"
    by simp
next
  assume "(\<forall>m a c. x \<noteq> DecryptionError m a c) \<and> (\<forall>r av. x \<noteq> UnsupportedAlgorithmError r av)"
  then show "decrypt_catch x = DecryptionError (str ''Decryption failed'') None (Some x)"
    by (cases x) simp_all
qed

theorem decrypt_failures_witness:
  "str ''not a valid envelope'' \<noteq> []
   \<and> atob (str ''not a valid envelope'') = Inl InvalidCharacterError
   \<and> EncryptionService_decrypt reference_runtime example_env example_heap example_service
        (str ''not a valid envelope'') None
      = (Inl (DecryptionError (str ''Decryption failed'') None (Some InvalidCharacterError)),
         example_heap)
   \<and> decrypt_catch (Error (str ''Decryption failed''))
      = DecryptionError (str ''Decryption failed'') None (Some (Error (str ''Decryption failed'')))
   \<and> atob (str ''bnVsbA=='') = Inr (str ''null'')
   \<and> JSON_parse (str ''null'') = Inr JNull
   \<and> EncryptionService_decrypt reference_runtime example_env example_heap example_service
        (str ''bnVsbA=='') None
      = (Inl (DecryptionError (str ''Decryption failed'') None (Some TypeError)), example_heap)
   \<and> atob (str ''eyJhbGdvcml0aG0iOiJYIn0='')
      = Inr ([0x7B, 0x22] @ str ''algorithm'' @ [0x22, 0x3A, 0x22] @ str ''X'' @ [0x22, 0x7D])
   \<and> JSON_parse ([0x7B, 0x22] @ str ''algorithm'' @ [0x22, 0x3A, 0x22] @ str ''X'' @ [0x22, 0x7D])
      = Inr (JObject [(str ''algorithm'', JString (str ''X''))])
   \<and> \<not> isAlgorithmSupported example_heap example_service (str ''X'')
   \<and> EncryptionService_decrypt reference_runtime example_env example_heap example_service
        (str ''eyJhbGdvcml0aG0iOiJYIn0='') None
      = (Inl (UnsupportedAlgorithmError (Some (JString (str ''X''))) [str ''JWE-A256GCM'']),
         example_heap)"
proof -
  have ne: "str ''not a valid envelope'' \<noteq> []" "str ''bnVsbA=='' \<noteq> []"
    "str ''eyJhbGdvcml0aG0iOiJYIn0='' \<noteq> []"
    by (simp_all add: str_def)
  have bad: "atob (str ''not a valid envelope'') = Inl InvalidCharacterError"
    by code_simp
  have null: "atob (str ''bnVsbA=='') = Inr (str ''null'')"
    "JSON_parse (str ''null'') = Inr JNull"
    by code_simp+
  have other: "atob (str ''eyJhbGdvcml0aG0iOiJYIn0='')
      = Inr ([0x7B, 0x22] @ str ''algorithm'' @ [0x22, 0x3A, 0x22] @ str ''X'' @ [0x22, 0x7D])"
    "JSON_parse ([0x7B, 0x22] @ str ''algorithm'' @ [0x22, 0x3A, 0x22] @ str ''X'' @ [0x22, 0x7D])
      = Inr (JObject [(str ''algorithm'', JString (str ''X''))])"
    by code_simp+
  have member: "get_property (JObject [(str ''algorithm'', JString (str ''X''))]) (str ''algorithm'')
      = Inr (Some (JString (str ''X'')))"
    by simp
  have unregistered: "\<not> isAlgorithmSupported example_heap example_service (str ''X'')"
    by (simp add: isAlgorithmSupported_def this_providers_def Map_has_def example_heap_def
        example_service_def str_def)
  have listed: "getSupportedAlgorithms example_heap example_service = [str ''JWE-A256GCM'']"
    by (simp add: getSupportedAlgorithms_def this_providers_def Map_keys_def example_heap_def
        example_service_def)
  show ?thesis
    using decrypt_failures [where e = "str ''not a valid envelope''"
        and err = InvalidCharacterError and rt = reference_runtime and env = example_env
        and h = example_heap and this = example_service and dopts = None
        and x = "Error (str ''Decryption failed'')"]
      decrypt_failures [where e = "str ''bnVsbA==''" and t = "str ''null''"
        and rt = reference_runtime and env = example_env
        and h = example_heap and this = example_service and dopts = None]
      decrypt_failures [where e = "str ''eyJhbGdvcml0aG0iOiJYIn0=''"
        and t = "[0x7B, 0x22] @ str ''algorithm'' @ [0x22, 0x3A, 0x22] @ str ''X'' @ [0x22, 0x7D]"
        and v = "JObject [(str ''algorithm'', JString (str ''X''))]"
        and ma = "Some (JString (str ''X''))"
        and rt = reference_runtime and env = example_env
        and h = example_heap and this = example_service and dopts = None]
      ne bad null other member unregistered listed
    by simp
qed

theorem decrypt_failures_counterexample:
  "fst (EncryptionService_decrypt reference_runtime example_env example_heap example_service
          (str ''e30='') None)
     = Inl (UnsupportedAlgorithmError None [str ''JWE-A256GCM''])"
  by code_simp

subsection \<open>Size of the plaintext\<close>

lemma encrypt_result:
  assumes "service_ok rt h this" and "algorithm opts = Some a"
    and "isAlgorithmSupported h this a" and "p \<noteq> []"
    and "getSecretList env = Inr (s # rest)" and "length (Buffer_from_base64 rt s) = 32"
  shows "fst (EncryptionService_encrypt rt env h this p opts iv) =
     (case CompactEncrypt rt (TextEncoder_encode p) (protected_header (options_context opts))
             (importKey (Buffer_from_base64 rt s)) iv of
        Inl e \<Rightarrow> Inl (EncryptionError (str ''Encryption failed'') (Some a) (Some e))
      | Inr jwe \<Rightarrow>
          (case btoa (JSON_stringify_metadata a jwe) of
             Inl e \<Rightarrow> Inl (EncryptionError (str ''Encryption failed'') (Some a) (Some e))
           | Inr envelope \<Rightarrow> Inr envelope))"
proof -
  from assms(3) obtain provider
    where provider: "Map_get (this_providers h this) a = Some provider"
    by (auto simp: supported_lookup)
  with assms(1) have a: "a = str ''JWE-A256GCM''" and cache: "cache_ok rt provider"
    by (rule service_ok_lookup)+
  have a_ne: "a \<noteq> []"
    by (simp add: a str_def)
  obtain r provider'
    where pe: "JWEA256GCMProvider_encrypt rt env provider p (options_context opts) iv
                 = (r, provider')"
    by (cases "JWEA256GCMProvider_encrypt rt env provider p (options_context opts) iv")
  from provider_encrypt_result [OF cache assms(4,5,6), of "options_context opts" iv] pe
  have "r = CompactEncrypt rt (TextEncoder_encode p) (protected_header (options_context opts))
             (importKey (Buffer_from_base64 rt s)) iv"
    by simp
  moreover have "fst (EncryptionService_encrypt rt env h this p opts iv) =
     (case r of
        Inl e \<Rightarrow> Inl (EncryptionError (str ''Encryption failed'') (Some a) (Some e))
      | Inr encrypted \<Rightarrow>
          (case btoa (JSON_stringify_metadata (str ''JWE-A256GCM'') encrypted) of
             Inl e \<Rightarrow> Inl (EncryptionError (str ''Encryption failed'') (Some a) (Some e))
           | Inr envelope \<Rightarrow> Inr envelope))"
    by (simp add: encrypt_registered [OF assms(2) a_ne provider pe])
  ultimately show ?thesis
    by (simp only: a)
qed

text \<open>
  Claim C2. \<open>encrypt\<close> has no bound on the size of the plaintext: for every
  non-empty plaintext and registered algorithm the result is what
  \<open>CompactEncrypt\<close> returns on the encoded plaintext, wrapped in the envelope, so
  the primitive is called whatever the length, and with primitives that meet
  their contract \<open>encrypt\<close> succeeds. A plaintext of 11 MiB is accepted.
\<close>

theorem encrypt_reaches_primitive:
  assumes "service_ok rt h this" and "algorithm opts = Some a"
    and "isAlgorithmSupported h this a" and "p \<noteq> []"
    and "getSecretList env = Inr (s # rest)" and "length (Buffer_from_base64 rt s) = 32"
  shows "fst (EncryptionService_encrypt rt env h this p opts iv) =
     (case CompactEncrypt rt (TextEncoder_encode p) (protected_header (options_context opts))
             (importKey (Buffer_from_base64 rt s)) iv of
        Inl e \<Rightarrow> Inl (EncryptionError (str ''Encryption failed'') (Some a) (Some e))
      | Inr jwe \<Rightarrow>
          (case btoa (JSON_stringify_metadata a jwe) of
             Inl e \<Rightarrow> Inl (EncryptionError (str ''Encryption failed'') (Some a) (Some e))
           | Inr envelope \<Rightarrow> Inr envelope))
     \<and> (jose_contract rt \<longrightarrow>
          (\<exists>envelope. fst (EncryptionService_encrypt rt env h this p opts iv) = Inr envelope))"
proof
  show "fst (EncryptionService_encrypt rt env h this p opts iv) =
     (case CompactEncrypt rt (TextEncoder_encode p) (protected_header (options_context opts))
             (importKey (Buffer_from_base64 rt s)) iv of
        Inl e \<Rightarrow> Inl (EncryptionError (str ''Encryption failed'') (Some a) (Some e))
      | Inr jwe \<Rightarrow>
          (case btoa (JSON_stringify_metadata a jwe) of
             Inl e \<Rightarrow> Inl (EncryptionError (str ''Encryption failed'') (Some a) (Some e))
           | Inr envelope \<Rightarrow> Inr envelope))"
    using assms by (rule encrypt_result)
  show "jose_contract rt \<longrightarrow>
          (\<exists>envelope. fst (EncryptionService_encrypt rt env h this p opts iv) = Inr envelope)"
  proof
    assume "jose_contract rt"
    from encrypt_then_decrypt [OF this assms, of iv] show
      "\<exists>envelope. fst (EncryptionService_encrypt rt env h this p opts iv) = Inr envelope"
      by auto
  qed
qed

theorem encrypt_reaches_primitive_witness:
  "service_ok reference_runtime example_heap example_service
   \<and> isAlgorithmSupported example_heap example_service (str ''JWE-A256GCM'')
   \<and> jose_contract reference_runtime
   \<and> 10 * 1024 * 1024 < length (replicate (11 * 1024 * 1024) (0x78 :: 16 word))
   \<and> (\<exists>envelope. fst (EncryptionService_encrypt reference_runtime example_env example_heap
          example_service (replicate (11 * 1024 * 1024) 0x78)
          \<lparr>options_context = None, algorithm = Some (str ''JWE-A256GCM'')\<rparr> []) = Inr envelope)"
proof -
  have ne: "replicate (11 * 1024 * 1024) (0x78 :: 16 word) \<noteq> []"
    by simp
  have alg: "algorithm \<lparr>options_context = None, algorithm = Some (str ''JWE-A256GCM'')\<rparr>
               = Some (str ''JWE-A256GCM'')"
    by simp
  have len: "10 * 1024 * 1024 < length (replicate (11 * 1024 * 1024) (0x78 :: 16 word))"
    by simp
  show ?thesis
    using encrypt_reaches_primitive [OF example_service_ok alg example_supported ne
        example_secret_list example_secret_key, of "[]"]
      example_service_ok example_supported reference_runtime_contract len
    by blast
qed

end
